theory Spec2Isabelle
  imports Complex_Main
begin

section \<open>Python values, exceptions and the collaborators of \<open>TESTask\<close>\<close>

text \<open>
  The job order, the generated-files listing and the entries of requirement lists are
  JSON-like Python values. A \<open>dict\<close> is kept as an association list in iteration order
  (keys are text and occur once). A finite float is kept as the exact rational it stands
  for (\<open>VFloat\<close>); the two infinities (\<open>VInf True\<close> is the positive one) and \<open>nan\<close> are
  values of their own. An \<open>int\<close> is unbounded.
\<close>

datatype pyval =
    VNone
  | VBool bool
  | VInt int
  | VFloat rat
  | VInf bool
  | VNaN
  | VStr string
  | VBytes string
  | VList "pyval list"
  | VDict "(string \<times> pyval) list"

type_synonym dict = "(string \<times> pyval) list"

text \<open>
  Exceptions. \<open>ServiceError\<close> stands for any other subclass of \<open>Exception\<close> raised by a
  collaborator (HTTP client, file system, output collection); \<open>BaseExc\<close> for an exception
  that is not a subclass of \<open>Exception\<close> (\<open>KeyboardInterrupt\<close>, \<open>SystemExit\<close>), which
  an \<open>except Exception\<close> clause does not catch.
\<close>

datatype exn =
    UnsupportedRequirement
  | WorkflowException exn
  | KeyError string
  | TypeError
  | OverflowError
  | AttributeError
  | UnicodeDecodeError
  | ServiceError string
  | BaseExc string

fun is_Exception :: "exn \<Rightarrow> bool" where
  "is_Exception (BaseExc _) = False"
| "is_Exception _ = True"

definition ebind :: "exn + 'a \<Rightarrow> ('a \<Rightarrow> exn + 'b) \<Rightarrow> exn + 'b" where
  "ebind m f = (case m of Inl e \<Rightarrow> Inl e | Inr x \<Rightarrow> f x)"

text \<open>\<open>k in d\<close>, \<open>d.get(k, default)\<close> and \<open>d[k]\<close> on a dict.\<close>

definition has_key :: "dict \<Rightarrow> string \<Rightarrow> bool" where
  "has_key d k = (map_of d k \<noteq> None)"

definition dict_get :: "dict \<Rightarrow> string \<Rightarrow> pyval \<Rightarrow> pyval" where
  "dict_get d k dflt = (case map_of d k of None \<Rightarrow> dflt | Some v \<Rightarrow> v)"

definition getitem :: "dict \<Rightarrow> string \<Rightarrow> exn + pyval" where
  "getitem d k = (case map_of d k of None \<Rightarrow> Inl (KeyError k) | Some v \<Rightarrow> Inr v)"

text \<open>
  Library functions the class calls and does not define: \<open>StdFsAccess.join\<close>
  (\<open>os.path.join\<close>), \<open>schema_salad.ref_resolver.file_uri\<close>, \<open>os.path.basename\<close>,
  \<open>str.upper\<close>, the \<open>%s\<close> conversion of a value that is not text, and UTF-8 decoding
  (\<open>None\<close> when the bytes are not valid UTF-8). They are parameters of the model.
\<close>

record ext =
  path_join :: "string \<Rightarrow> string \<Rightarrow> string"
  file_uri :: "string \<Rightarrow> string"
  path_basename :: "string \<Rightarrow> string"
  upper :: "string \<Rightarrow> string"
  str_of :: "pyval \<Rightarrow> string"
  utf8_decode :: "string \<Rightarrow> string option"

text \<open>\<open>"%s" % v\<close>: text is inserted as it is.\<close>

definition fmt_s :: "ext \<Rightarrow> pyval \<Rightarrow> string" where
  "fmt_s x v = (case v of VStr s \<Rightarrow> s | _ \<Rightarrow> str_of x v)"

text \<open>\<open>"%s" % i\<close> for a list index: the decimal numeral.\<close>

fun string_of_nat :: "nat \<Rightarrow> string" where
  "string_of_nat n =
     (if n < 10 then [char_of (48 + n)]
      else string_of_nat (n div 10) @ [char_of (48 + n mod 10)])"

declare string_of_nat.simps [simp del]

section \<open>The job\<close>

text \<open>
  The tool document \<open>self.spec\<close>: cwltool hands it over loaded and validated, so
  \<open>requirements\<close> and \<open>hints\<close>, when present, are lists of mappings. A field that is
  \<open>None\<close> here is a key the document does not have.
\<close>

record cwl_spec =
  spec_requirements :: "dict list option"
  spec_hints :: "dict list option"
  spec_doc :: "pyval option"
  spec_id :: "pyval option"

text \<open>
  The attributes of a \<open>TESTask\<close> that \<open>run\<close> reads: those set by \<open>JobBase\<close> and the
  owning engine, and the fields of \<open>runtime_context\<close>. \<open>listing\<close> is
  \<open>self.generatefiles["listing"]\<close>, \<open>builder_requirements\<close> is
  \<open>self.builder.requirements\<close>.
\<close>

record job =
  spec :: cwl_spec
  joborder :: dict
  listing :: "dict list"
  builder_requirements :: "dict list"
  name :: string
  command_line :: "string list"
  environment :: "(string \<times> string) list"
  stdin :: "string option"
  stdout :: "string option"
  stderr :: "string option"
  outdir :: string
  tmpdir :: string
  stagedir :: "string option"
  default_container :: "string option"
  preserve_environment :: "string list option"
  preserve_entire_environment :: bool
  rm_tmpdir :: bool

definition docker_workdir :: string where
  "docker_workdir = ''/var/spool/cwl''"

section \<open>\<open>get_container\<close>\<close>

definition is_class :: "dict \<Rightarrow> string \<Rightarrow> bool" where
  "is_class i c = (dict_get i ''class'' (VStr ''NA'') = VStr c)"

definition default_image :: pyval where
  "default_image = VStr ''python:2.7''"

definition docker_step :: "pyval \<Rightarrow> dict \<Rightarrow> pyval" where
  "docker_step container i =
     (if is_class i ''DockerRequirement''
      then dict_get i ''dockerPull'' (dict_get i ''dockerImageId'' default_image)
      else container)"

definition spec_reqs :: "job \<Rightarrow> dict list" where
  "spec_reqs j =
     (case spec_requirements (spec j) of None \<Rightarrow> [] | Some r \<Rightarrow> r) @
     (case spec_hints (spec j) of None \<Rightarrow> [] | Some h \<Rightarrow> h)"

definition get_container :: "job \<Rightarrow> pyval" where
  "get_container j =
     (let container =
            (case default_container j of
               None \<Rightarrow> default_image
             | Some c \<Rightarrow> if c \<noteq> [] then VStr c else default_image)
      in foldl docker_step container (spec_reqs j))"

text \<open>
  The resolution order in the words of the specification: an explicit \<open>dockerPull\<close> or
  \<open>dockerImageId\<close> of the last \<open>DockerRequirement\<close> (requirements, then hints), else
  the configured default image, else the hard-coded image.
\<close>

definition last_docker :: "dict list \<Rightarrow> dict option" where
  "last_docker reqs =
     (case rev (filter (\<lambda>i. is_class i ''DockerRequirement'') reqs) of
        [] \<Rightarrow> None | i # _ \<Rightarrow> Some i)"

definition explicit_image :: "dict \<Rightarrow> pyval option" where
  "explicit_image i =
     (case map_of i ''dockerPull'' of
        Some p \<Rightarrow> Some p
      | None \<Rightarrow> map_of i ''dockerImageId'')"

definition spec_image :: "string option \<Rightarrow> dict list \<Rightarrow> pyval" where
  "spec_image configured reqs =
     (case Option.bind (last_docker reqs) explicit_image of
        Some img \<Rightarrow> img
      | None \<Rightarrow>
          (case configured of
             None \<Rightarrow> default_image
           | Some c \<Rightarrow> if c \<noteq> [] then VStr c else default_image))"

section \<open>Input descriptors: \<open>create_input\<close> and \<open>parse_job_order\<close>\<close>

text \<open>
  \<open>tes.Input\<close>, with the keyword arguments the class passes. An argument that is not
  passed is \<open>VNone\<close>, the default of the library.
\<close>

record tes_input =
  in_name :: pyval
  in_description :: string
  in_url :: pyval
  in_path :: pyval
  in_content :: pyval
  in_type :: pyval

text \<open>\<open>v.upper()\<close>: text and bytes have the method, other values raise.\<close>

definition py_upper :: "ext \<Rightarrow> pyval \<Rightarrow> exn + pyval" where
  "py_upper x v =
     (case v of
        VStr s \<Rightarrow> Inr (VStr (upper x s))
      | VBytes s \<Rightarrow> Inr (VBytes (upper x s))
      | _ \<Rightarrow> Inl AttributeError)"

definition create_input :: "ext \<Rightarrow> pyval \<Rightarrow> dict \<Rightarrow> exn + tes_input" where
  "create_input x nm d =
     (if has_key d ''contents'' then
        ebind (getitem d ''path'') (\<lambda>p.
        ebind (getitem d ''contents'') (\<lambda>c.
        ebind (ebind (getitem d ''class'') (py_upper x)) (\<lambda>t.
          Inr \<lparr>in_name = nm, in_description = ''cwl_input:'' @ fmt_s x nm,
               in_url = VNone, in_path = p, in_content = c, in_type = t\<rparr>)))
      else
        ebind (getitem d ''location'') (\<lambda>u.
        ebind (getitem d ''path'') (\<lambda>p.
        ebind (ebind (getitem d ''class'') (py_upper x)) (\<lambda>t.
          Inr \<lparr>in_name = nm, in_description = ''cwl_input:'' @ fmt_s x nm,
               in_url = u, in_path = p, in_content = VNone, in_type = t\<rparr>))))"

text \<open>\<open>all([i in v for i in ["location", "path", "class"]])\<close>\<close>

definition is_leaf :: "dict \<Rightarrow> bool" where
  "is_leaf v = (has_key v ''location'' \<and> has_key v ''path'' \<and> has_key v ''class'')"

text \<open>\<open>f[k]\<close> with a text key: only a dict accepts it.\<close>

definition py_getitem :: "pyval \<Rightarrow> string \<Rightarrow> exn + pyval" where
  "py_getitem f k = (case f of VDict d \<Rightarrow> getitem d k | _ \<Rightarrow> Inl TypeError)"

text \<open>\<open>"%s[%s]" % (k, i)\<close>\<close>

definition index_name :: "ext \<Rightarrow> pyval \<Rightarrow> nat \<Rightarrow> pyval" where
  "index_name x k i = VStr (fmt_s x k @ ''['' @ string_of_nat i @ '']'')"

lemma size_map_of:
  "map_of d k = Some v \<Longrightarrow> size v < size_list (size_prod (\<lambda>_. 0) size) d"
  by (induction d) (auto split: if_splits)

text \<open>
  \<open>parse_job_order(k, v, inputs)\<close>. The list \<open>inputs\<close> is appended to in place and
  returned; an exception leaves the call at once. The three \<open>for\<close> loops are
  \<open>secondary_loop\<close> (over \<open>v["secondaryFiles"]\<close>), \<open>items_loop\<close> (over \<open>v.items()\<close>, left
  by \<open>break\<close> at the first value that is not a dict) and \<open>range_loop\<close> (over
  \<open>range(len(v))\<close>, left by \<open>break\<close> at the first element that is not a dict).
  Iterating a \<open>secondaryFiles\<close> value that is text, bytes or a dict yields characters,
  numbers or keys, on which \<open>f["basename"]\<close> raises \<open>TypeError\<close> at the first one; a value
  that cannot be iterated raises \<open>TypeError\<close> too.
\<close>

function parse_job_order ::
    "ext \<Rightarrow> pyval \<Rightarrow> pyval \<Rightarrow> tes_input list \<Rightarrow> exn + tes_input list"
  and secondary_loop :: "ext \<Rightarrow> pyval list \<Rightarrow> tes_input list \<Rightarrow> exn + tes_input list"
  and items_loop :: "ext \<Rightarrow> dict \<Rightarrow> tes_input list \<Rightarrow> exn + tes_input list"
  and range_loop ::
    "ext \<Rightarrow> pyval \<Rightarrow> nat \<Rightarrow> pyval list \<Rightarrow> tes_input list \<Rightarrow> exn + tes_input list"
where
  "parse_job_order x k v inputs =
     (case v of
        VDict d \<Rightarrow>
          if is_leaf d then
            (case create_input x k d of
               Inl e \<Rightarrow> Inl e
             | Inr inp \<Rightarrow>
                 (case map_of d ''secondaryFiles'' of
                    None \<Rightarrow> Inr (inputs @ [inp])
                  | Some (VList fs) \<Rightarrow> secondary_loop x fs (inputs @ [inp])
                  | Some (VStr s) \<Rightarrow> if s = [] then Inr (inputs @ [inp]) else Inl TypeError
                  | Some (VBytes s) \<Rightarrow> if s = [] then Inr (inputs @ [inp]) else Inl TypeError
                  | Some (VDict m) \<Rightarrow> if m = [] then Inr (inputs @ [inp]) else Inl TypeError
                  | Some _ \<Rightarrow> Inl TypeError))
          else items_loop x d inputs
      | VList vs \<Rightarrow> range_loop x k 0 vs inputs
      | _ \<Rightarrow> Inr inputs)"
| "secondary_loop x [] inputs = Inr inputs"
| "secondary_loop x (f # fs) inputs =
     (case py_getitem f ''basename'' of
        Inl e \<Rightarrow> Inl e
      | Inr b \<Rightarrow>
          (case parse_job_order x b f inputs of
             Inl e \<Rightarrow> Inl e
           | Inr inputs' \<Rightarrow> secondary_loop x fs inputs'))"
| "items_loop x [] inputs = Inr inputs"
| "items_loop x ((sk, sv) # rest) inputs =
     (case sv of
        VDict _ \<Rightarrow>
          (case parse_job_order x (VStr sk) sv inputs of
             Inl e \<Rightarrow> Inl e
           | Inr inputs' \<Rightarrow> items_loop x rest inputs')
      | _ \<Rightarrow> Inr inputs)"
| "range_loop x k i [] inputs = Inr inputs"
| "range_loop x k i (v # vs) inputs =
     (case v of
        VDict _ \<Rightarrow>
          (case parse_job_order x (index_name x k i) v inputs of
             Inl e \<Rightarrow> Inl e
           | Inr inputs' \<Rightarrow> range_loop x k (Suc i) vs inputs')
      | _ \<Rightarrow> Inr inputs)"
  by pat_completeness auto
termination
  apply (relation "measure (\<lambda>s. case s of
      Inl (Inl (x, k, v, inputs)) \<Rightarrow> 2 * size v + 2
    | Inl (Inr (x, fs, inputs)) \<Rightarrow> 2 * size_list size fs + 1
    | Inr (Inl (x, d, inputs)) \<Rightarrow> 2 * size_list (size_prod (\<lambda>_. 0) size) d + 1
    | Inr (Inr (x, k, i, vs, inputs)) \<Rightarrow> 2 * size_list size vs + 1)")
  apply (auto dest!: size_map_of)
  done

declare parse_job_order.simps [simp del]

text \<open>The first loop of \<open>get_inputs\<close>: every entry of the job order, with no \<open>break\<close>.\<close>

fun joborder_loop :: "ext \<Rightarrow> dict \<Rightarrow> tes_input list \<Rightarrow> exn + tes_input list" where
  "joborder_loop x [] inputs = Inr inputs"
| "joborder_loop x ((k, v) # rest) inputs =
     (case parse_job_order x (VStr k) v inputs of
        Inl e \<Rightarrow> Inl e
      | Inr inputs' \<Rightarrow> joborder_loop x rest inputs')"

subsection \<open>The walk of the specification\<close>

text \<open>
  The walking rule in the words of the specification. The nodes below a node: the
  \<open>secondaryFiles\<close> entries of a leaf file or directory reference, each under its
  \<open>basename\<close>; the values of any other mapping, each under its key; the elements of a list,
  each under the name of the list suffixed by its index. The leaves of a tree are all the
  file and directory references reached by walking every branch to its end.
\<close>

definition basename_of :: "pyval \<Rightarrow> pyval" where
  "basename_of f = (case f of VDict m \<Rightarrow> dict_get m ''basename'' VNone | _ \<Rightarrow> VNone)"

definition secondary_files :: "dict \<Rightarrow> pyval list" where
  "secondary_files d =
     (case map_of d ''secondaryFiles'' of Some (VList fs) \<Rightarrow> fs | _ \<Rightarrow> [])"

definition children :: "pyval \<Rightarrow> pyval list" where
  "children v =
     (case v of
        VDict d \<Rightarrow> if is_leaf d then secondary_files d else map snd d
      | VList vs \<Rightarrow> vs
      | _ \<Rightarrow> [])"

definition named_children :: "ext \<Rightarrow> pyval \<Rightarrow> pyval \<Rightarrow> (pyval \<times> pyval) list" where
  "named_children x k v =
     (case v of
        VDict d \<Rightarrow>
          if is_leaf d then map (\<lambda>f. (basename_of f, f)) (secondary_files d)
          else map (\<lambda>(sk, sv). (VStr sk, sv)) d
      | VList vs \<Rightarrow> map (\<lambda>(i, e). (index_name x k i, e)) (enumerate 0 vs)
      | _ \<Rightarrow> [])"

lemma size_children [termination_simp]:
  assumes "c \<in> set (children v)"
  shows "size c < size v"
proof (cases v)
  case (VDict d)
  show ?thesis
  proof (cases "is_leaf d")
    case True
    with assms VDict have "c \<in> set (secondary_files d)"
      by (simp add: children_def)
    then have "\<exists>fs. map_of d ''secondaryFiles'' = Some (VList fs) \<and> c \<in> set fs"
      unfolding secondary_files_def
      by (cases "map_of d ''secondaryFiles''"; simp split: pyval.splits; blast)
    then obtain fs where fs: "map_of d ''secondaryFiles'' = Some (VList fs)"
      and c: "c \<in> set fs"
      by blast
    from c have "size c < Suc (size_list size fs)"
      by (simp add: less_Suc_eq_le size_list_estimation')
    with size_map_of [OF fs] VDict show ?thesis by simp
  next
    case False
    with assms VDict obtain sk where "(sk, c) \<in> set d"
      by (auto simp: children_def)
    then have "size c < size_list (size_prod (\<lambda>_. 0) size) d"
      by (induction d) auto
    with VDict show ?thesis by simp
  qed
next
  case (VList vs)
  with assms have "c \<in> set vs" by (simp add: children_def)
  then have "size c < Suc (size_list size vs)"
    by (simp add: less_Suc_eq_le size_list_estimation')
  with VList show ?thesis by simp
qed (use assms in \<open>simp_all add: children_def\<close>)

lemma snd_comp_named: "snd \<circ> (\<lambda>(i, e). (g i, e)) = snd"
  by (auto simp: fun_eq_iff)

lemma snd_named_children: "map snd (named_children x k v) = children v"
proof (cases v)
  case (VDict d)
  then show ?thesis
    by (simp add: named_children_def children_def comp_def case_prod_beta)
next
  case (VList vs)
  then show ?thesis
    by (simp add: named_children_def children_def snd_comp_named enumerate_eq_zip)
qed (simp_all add: named_children_def children_def)

lemma size_named_children [termination_simp]:
  "(n, c) \<in> set (named_children x k v) \<Longrightarrow> size c < size v"
proof -
  assume "(n, c) \<in> set (named_children x k v)"
  then have "c \<in> set (map snd (named_children x k v))" by force
  then show ?thesis by (simp add: snd_named_children size_children)
qed

fun leaves :: "ext \<Rightarrow> pyval \<Rightarrow> pyval \<Rightarrow> (pyval \<times> dict) list" where
  "leaves x k v =
     (case v of VDict d \<Rightarrow> if is_leaf d then [(k, d)] else [] | _ \<Rightarrow> []) @
     concat (map (\<lambda>(n, c). leaves x n c) (named_children x k v))"

declare leaves.simps [simp del]

text \<open>
  A tree that contains only well-formed file and directory leaf nodes: every branch ends
  in a reference with \<open>location\<close>, \<open>path\<close> and a \<open>class\<close> that is \<open>File\<close> or \<open>Directory\<close>,
  whose \<open>secondaryFiles\<close>, when present, is a list of such references with a \<open>basename\<close>;
  there is no scalar in it.
\<close>

definition is_mapping :: "pyval \<Rightarrow> bool" where
  "is_mapping v = (case v of VDict _ \<Rightarrow> True | _ \<Rightarrow> False)"

definition is_secondary :: "pyval \<Rightarrow> bool" where
  "is_secondary f = (case f of VDict m \<Rightarrow> is_leaf m \<and> has_key m ''basename'' | _ \<Rightarrow> False)"

definition wf_leaf :: "dict \<Rightarrow> bool" where
  "wf_leaf d =
     ((map_of d ''class'' = Some (VStr ''File'') \<or>
       map_of d ''class'' = Some (VStr ''Directory'')) \<and>
      (case map_of d ''secondaryFiles'' of
         None \<Rightarrow> True
       | Some (VList fs) \<Rightarrow> list_all is_secondary fs
       | Some _ \<Rightarrow> False))"

definition wf_node :: "pyval \<Rightarrow> bool" where
  "wf_node v =
     (case v of
        VDict d \<Rightarrow> if is_leaf d then wf_leaf d else True
      | VList _ \<Rightarrow> True
      | _ \<Rightarrow> False)"

fun file_tree :: "pyval \<Rightarrow> bool" where
  "file_tree v = (wf_node v \<and> list_all file_tree (children v))"

declare file_tree.simps [simp del]

text \<open>
  The trees on which no loop of \<open>parse_job_order\<close> meets a \<open>break\<close>: every value of a
  mapping that is not a leaf, and every element of a list, is itself a mapping. A list
  is then either the value of a job-order parameter or a \<open>secondaryFiles\<close> list.
\<close>

fun mappings_only :: "pyval \<Rightarrow> bool" where
  "mappings_only v =
     (list_all is_mapping (children v) \<and> list_all mappings_only (children v))"

declare mappings_only.simps [simp del]

section \<open>The task message\<close>

text \<open>
  \<open>tes.Output\<close>, \<open>tes.Executor\<close>, \<open>tes.Resources\<close> and \<open>tes.Task\<close>, with the keyword
  arguments the class passes. \<open>out_type = None\<close> is an output built without \<open>type\<close>.
  The constructors belong to the \<open>tes\<close> library and are taken to accept what they are
  given.
\<close>

record tes_output =
  out_name :: string
  out_url :: pyval
  out_path :: pyval
  out_type :: "string option"

record tes_executor =
  ex_command :: "string list"
  ex_image :: pyval
  ex_workdir :: string
  ex_stdout :: pyval
  ex_stderr :: pyval
  ex_stdin :: "string option"
  ex_env :: "(string \<times> string) list"

record tes_resources =
  cpu_cores :: pyval
  ram_gb :: pyval
  disk_gb :: pyval

record tes_task =
  task_name :: string
  task_description :: pyval
  task_executors :: "tes_executor list"
  task_inputs :: "tes_input list"
  task_outputs :: "tes_output list"
  task_resources :: tes_resources
  task_tags :: "(string \<times> pyval) list"

section \<open>What a run does, and the world it runs in\<close>

datatype view = MINIMAL | FULL

datatype status = Success | PermanentFail

text \<open>
  The actions of a run that can be observed from outside, in the order they happen:
  a file written into the temporary directory, the calls of the client of the execution
  service, the sleep before a poll (with the value of \<open>current_try\<close> the delay is drawn
  for), the call of the output callback with its two arguments (\<open>None\<close> is Python's
  \<open>None\<close>), the call of \<open>cleanup\<close> with its argument, and the directories it removes.
\<close>

datatype event =
    WriteFile string pyval
  | CreateTask tes_task
  | Sleep nat
  | GetTask pyval view
  | OutputCallback "(pyval \<times> pyval) list option" status
  | Cleanup bool
  | RmTree string

text \<open>
  The collaborators whose answers a run depends on. \<open>get_task_minimal w n\<close> is the answer
  of the service to the poll number \<open>n\<close> (from 0) of the loop: an exception, or the state
  of the task. \<open>get_task_full\<close> is its answer to the request for the logs.
  \<open>collect_outputs\<close> is the answer of \<open>self.collect_outputs(self.outdir)\<close>, which cwltool
  attaches to the job. \<open>output_callback w outs st\<close> is \<open>None\<close> when the callback returns.
  \<open>fs_write w loc c\<close> is \<open>None\<close> when opening \<open>loc\<close> and writing \<open>c\<close> succeed.
\<close>

record world =
  os_environ :: "(string \<times> string) list"
  fs_write :: "string \<Rightarrow> pyval \<Rightarrow> exn option"
  path_exists :: "string \<Rightarrow> bool"
  create_task :: "tes_task \<Rightarrow> exn + pyval"
  get_task_minimal :: "nat \<Rightarrow> exn + string"
  get_task_full :: "exn + pyval"
  collect_outputs :: "exn + (pyval \<times> pyval) list"
  output_callback :: "(pyval \<times> pyval) list option \<Rightarrow> status \<Rightarrow> exn option"

section \<open>\<open>parse_listing\<close> and \<open>get_inputs\<close>\<close>

text \<open>A path handed to \<open>join\<close> or \<open>file_uri\<close> must be text.\<close>

definition py_join :: "ext \<Rightarrow> string \<Rightarrow> pyval \<Rightarrow> exn + string" where
  "py_join x a b = (case b of VStr s \<Rightarrow> Inr (path_join x a s) | _ \<Rightarrow> Inl TypeError)"

definition py_file_uri :: "ext \<Rightarrow> pyval \<Rightarrow> exn + pyval" where
  "py_file_uri x loc = (case loc of VStr s \<Rightarrow> Inr (VStr (file_uri x s)) | _ \<Rightarrow> Inl TypeError)"

text \<open>
  The first half of the loop body of \<open>parse_listing\<close>: where the item is to be fetched
  from. An item with \<open>contents\<close> is written to the temporary directory first.
\<close>

definition stage_item :: "world \<Rightarrow> ext \<Rightarrow> job \<Rightarrow> dict \<Rightarrow> event list \<times> (exn + pyval)" where
  "stage_item w x j item =
     (if has_key item ''contents'' then
        (case ebind (getitem item ''basename'') (py_join x (tmpdir j)) of
           Inl e \<Rightarrow> ([], Inl e)
         | Inr loc \<Rightarrow>
             (case fs_write w loc (dict_get item ''contents'' VNone) of
                Some e \<Rightarrow> ([], Inl e)
              | None \<Rightarrow> ([WriteFile loc (dict_get item ''contents'' VNone)], Inr (VStr loc))))
      else ([], getitem item ''location''))"

text \<open>The second half: the \<open>tes.Input\<close> of the item, its arguments evaluated in order.\<close>

definition listing_input :: "ext \<Rightarrow> dict \<Rightarrow> pyval \<Rightarrow> exn + tes_input" where
  "listing_input x item loc =
     ebind (getitem item ''basename'') (\<lambda>b.
     ebind (py_file_uri x loc) (\<lambda>u.
     ebind (py_join x docker_workdir b) (\<lambda>p.
     ebind (ebind (getitem item ''class'') (py_upper x)) (\<lambda>t.
       Inr \<lparr>in_name = b,
            in_description = ''InitialWorkDirRequirement:cwl_input:'' @ fmt_s x b,
            in_url = u, in_path = VStr p, in_content = VNone, in_type = t\<rparr>))))"

fun parse_listing ::
    "world \<Rightarrow> ext \<Rightarrow> job \<Rightarrow> dict list \<Rightarrow> tes_input list \<Rightarrow> event list \<times> (exn + tes_input list)"
where
  "parse_listing w x j [] inputs = ([], Inr inputs)"
| "parse_listing w x j (item # rest) inputs =
     (if has_key item ''writable'' then ([], Inl UnsupportedRequirement)
      else
        (case stage_item w x j item of
           (ev, Inl e) \<Rightarrow> (ev, Inl e)
         | (ev, Inr loc) \<Rightarrow>
             (case listing_input x item loc of
                Inl e \<Rightarrow> (ev, Inl e)
              | Inr parameter \<Rightarrow>
                  (case parse_listing w x j rest (inputs @ [parameter]) of
                     (ev', r) \<Rightarrow> (ev @ ev', r)))))"

definition get_inputs :: "world \<Rightarrow> ext \<Rightarrow> job \<Rightarrow> event list \<times> (exn + tes_input list)" where
  "get_inputs w x j =
     (case joborder_loop x (joborder j) [] of
        Inl e \<Rightarrow> ([], Inl e)
      | Inr inputs \<Rightarrow> parse_listing w x j (listing j) inputs)"

section \<open>\<open>get_envvars\<close>, \<open>output2url\<close>, \<open>output2path\<close>\<close>

text \<open>\<open>d[k] = v\<close>: a key that is there keeps its place, a new key goes last.\<close>

fun dict_set :: "'k \<Rightarrow> 'v \<Rightarrow> ('k \<times> 'v) list \<Rightarrow> ('k \<times> 'v) list" where
  "dict_set k v [] = [(k, v)]"
| "dict_set k v ((k', v') # d) = (if k' = k then (k, v) # d else (k', v') # dict_set k v d)"

text \<open>
  \<open>get_envvars\<close>. The conversions with \<open>str\<close> on Windows leave text as it is. The
  method also updates \<open>self.environment\<close>, which nothing reads afterwards.
\<close>

definition get_envvars :: "world \<Rightarrow> job \<Rightarrow> (string \<times> string) list" where
  "get_envvars w j =
     (let vars_to_preserve =
            (if preserve_entire_environment j then Some (map fst (os_environ w))
             else preserve_environment j);
          env =
            (case vars_to_preserve of
               None \<Rightarrow> environment j
             | Some vs \<Rightarrow>
                 foldl (\<lambda>env (key, val).
                          if key \<in> set vs \<and> map_of env key = None then dict_set key val env
                          else env)
                   (environment j) (os_environ w))
      in dict_set ''TMPDIR'' (tmpdir j) (dict_set ''HOME'' (outdir j) env))"

definition output2url :: "ext \<Rightarrow> job \<Rightarrow> string option \<Rightarrow> pyval" where
  "output2url x j p =
     (case p of
        Some s \<Rightarrow> VStr (file_uri x (path_join x (outdir j) (path_basename x s)))
      | None \<Rightarrow> VNone)"

definition output2path :: "ext \<Rightarrow> string option \<Rightarrow> pyval" where
  "output2path x p =
     (case p of Some s \<Rightarrow> VStr (path_join x docker_workdir s) | None \<Rightarrow> VNone)"

section \<open>\<open>create_task_msg\<close>\<close>

text \<open>\<open>isinstance(v, str)\<close>\<close>

definition is_str :: "pyval \<Rightarrow> bool" where
  "is_str v = (case v of VStr _ \<Rightarrow> True | _ \<Rightarrow> False)"

text \<open>
  Dividing an \<open>int\<close> by a float first converts it to a float, rounding to the nearest
  double; this raises \<open>OverflowError\<close> (int too large to convert to float) when the
  nearest double would be beyond the largest one, that is from \<open>2^1024 - 2^970\<close> on in
  absolute value.
\<close>

definition float_overflows :: "int \<Rightarrow> bool" where
  "float_overflows n = (2 ^ 1024 - 2 ^ 970 \<le> \<bar>n\<bar>)"

text \<open>
  \<open>v / 953.674 if v is not None else None\<close>. The quotient of a finite number is kept
  exact (the rounding of the division is left out); an infinity and \<open>nan\<close> divide to
  themselves; a \<open>bool\<close> counts as 0 or 1; a value that is not a number cannot be divided.
\<close>

definition to_gb :: "pyval \<Rightarrow> exn + pyval" where
  "to_gb v =
     (case v of
        VNone \<Rightarrow> Inr VNone
      | VInt n \<Rightarrow>
          if float_overflows n then Inl OverflowError
          else Inr (VFloat (of_int n / 953.674))
      | VFloat q \<Rightarrow> Inr (VFloat (q / 953.674))
      | VInf b \<Rightarrow> Inr (VInf b)
      | VNaN \<Rightarrow> Inr VNaN
      | VBool b \<Rightarrow> Inr (VFloat ((if b then 1 else 0) / 953.674))
      | _ \<Rightarrow> Inl TypeError)"

definition stdout_output :: "ext \<Rightarrow> job \<Rightarrow> tes_output list" where
  "stdout_output x j =
     (case stdout j of
        None \<Rightarrow> []
      | Some s \<Rightarrow> [\<lparr>out_name = ''stdout'', out_url = output2url x j (Some s),
                    out_path = output2path x (Some s), out_type = None\<rparr>])"

definition stderr_output :: "ext \<Rightarrow> job \<Rightarrow> tes_output list" where
  "stderr_output x j =
     (case stderr j of
        None \<Rightarrow> []
      | Some s \<Rightarrow> [\<lparr>out_name = ''stderr'', out_url = output2url x j (Some s),
                    out_path = output2path x (Some s), out_type = None\<rparr>])"

definition workdir_output :: "ext \<Rightarrow> job \<Rightarrow> tes_output" where
  "workdir_output x j =
     \<lparr>out_name = ''workdir'', out_url = output2url x j (Some []),
      out_path = VStr docker_workdir, out_type = Some ''DIRECTORY''\<rparr>"

definition docker_output :: "ext \<Rightarrow> job \<Rightarrow> dict \<Rightarrow> tes_output" where
  "docker_output x j i =
     \<lparr>out_name = ''dockerOutputDirectory'', out_url = output2url x j (Some []),
      out_path = dict_get i ''dockerOutputDirectory'' VNone, out_type = Some ''DIRECTORY''\<rparr>"

text \<open>The bounds a \<open>ResourceRequirement\<close> selects: the minimum if it is there, else the maximum.\<close>

definition selected_cores :: "dict \<Rightarrow> pyval" where
  "selected_cores i = dict_get i ''coresMin'' (dict_get i ''coresMax'' VNone)"

definition selected_ram :: "dict \<Rightarrow> pyval" where
  "selected_ram i = dict_get i ''ramMin'' (dict_get i ''ramMax'' VNone)"

definition selected_disk :: "dict \<Rightarrow> pyval" where
  "selected_disk i = dict_get i ''outdirMin'' (dict_get i ''outdirMax'' VNone)"

text \<open>
  The loop over \<open>self.builder.requirements\<close>. Its state is \<open>cpus\<close>, \<open>ram\<close>, \<open>disk\<close> and
  \<open>output_parameters\<close>.
\<close>

fun requirements_loop ::
    "ext \<Rightarrow> job \<Rightarrow> dict list \<Rightarrow> pyval \<times> pyval \<times> pyval \<times> tes_output list \<Rightarrow>
     exn + pyval \<times> pyval \<times> pyval \<times> tes_output list"
where
  "requirements_loop x j [] st = Inr st"
| "requirements_loop x j (i # rest) (cpus, ram, disk, output_parameters) =
     (if is_class i ''ResourceRequirement'' then
        (let cpus' = selected_cores i; ram' = selected_ram i; disk' = selected_disk i
         in if (cpus' = VNone \<or> is_str cpus') \<or> (ram' = VNone \<or> is_str ram') \<or>
               (disk' = VNone \<or> is_str disk')
            then Inl UnsupportedRequirement
            else
              (case to_gb ram' of
                 Inl e \<Rightarrow> Inl e
               | Inr ram'' \<Rightarrow>
                   (case to_gb disk' of
                      Inl e \<Rightarrow> Inl e
                    | Inr disk'' \<Rightarrow>
                        requirements_loop x j rest (cpus', ram'', disk'', output_parameters))))
      else if is_class i ''DockerRequirement'' then
        (if dict_get i ''dockerOutputDirectory'' VNone \<noteq> VNone
         then requirements_loop x j rest
                (cpus, ram, disk, output_parameters @ [docker_output x j i])
         else requirements_loop x j rest (cpus, ram, disk, output_parameters))
      else requirements_loop x j rest (cpus, ram, disk, output_parameters))"

definition create_task_msg :: "world \<Rightarrow> ext \<Rightarrow> job \<Rightarrow> event list \<times> (exn + tes_task)" where
  "create_task_msg w x j =
     (case get_inputs w x j of
        (ev, Inl e) \<Rightarrow> (ev, Inl e)
      | (ev, Inr input_parameters) \<Rightarrow>
          (let output_parameters = stdout_output x j @ stderr_output x j @ [workdir_output x j];
               container = get_container j
           in case requirements_loop x j (builder_requirements j)
                     (VNone, VNone, VNone, output_parameters) of
                Inl e \<Rightarrow> (ev, Inl e)
              | Inr (cpus, ram, disk, output_parameters') \<Rightarrow>
                  (ev, Inr
                    \<lparr>task_name = name j,
                     task_description =
                       (case spec_doc (spec j) of None \<Rightarrow> VStr [] | Some d \<Rightarrow> d),
                     task_executors =
                       [\<lparr>ex_command = command_line j, ex_image = container,
                         ex_workdir = docker_workdir,
                         ex_stdout = output2path x (stdout j),
                         ex_stderr = output2path x (stderr j),
                         ex_stdin = stdin j, ex_env = get_envvars w j\<rparr>],
                     task_inputs = input_parameters,
                     task_outputs = output_parameters',
                     task_resources = \<lparr>cpu_cores = cpus, ram_gb = ram, disk_gb = disk\<rparr>,
                     task_tags =
                       [(''CWLDocumentId'',
                         case spec_id (spec j) of None \<Rightarrow> VNone | Some i \<Rightarrow> i)]\<rparr>)))"

section \<open>\<open>run\<close>: submission, polling, collection, cleanup\<close>

definition terminal_states :: "string list" where
  "terminal_states = [''COMPLETE'', ''CANCELED'', ''EXECUTOR_ERROR'', ''SYSTEM_ERROR'']"

text \<open>
  \<open>is_done\<close>, given \<open>self.id\<close> and \<open>self.state\<close>. In a terminal state other than
  \<open>COMPLETE\<close> it asks the service for the logs, inside the argument of a logging call.
\<close>

definition is_done :: "world \<Rightarrow> pyval \<Rightarrow> string \<Rightarrow> event list \<times> (exn + bool)" where
  "is_done w tid st =
     (if st \<in> set terminal_states then
        (if st \<noteq> ''COMPLETE'' then
           (case get_task_full w of
              Inl e \<Rightarrow> ([GetTask tid FULL], Inl e)
            | Inr logs \<Rightarrow> ([GetTask tid FULL], Inr True))
         else ([], Inr True))
      else ([], Inr False))"

definition max_tries :: nat where
  "max_tries = 10"

text \<open>
  The \<open>while not self.is_done()\<close> loop; it need not end, so the function is partial.
  Its state is \<open>self.state\<close>, \<open>current_try\<close>, the number \<open>n\<close> of polls made and the
  actions so far. It ends with the state in which the loop was left, or with the
  exception that left it. An exception of the poll that is an \<open>Exception\<close> is counted
  and the loop goes on (\<open>continue\<close>) or stops (\<open>break\<close>).
\<close>

partial_function (option) poll_loop ::
    "world \<Rightarrow> pyval \<Rightarrow> string \<Rightarrow> nat \<Rightarrow> nat \<Rightarrow> event list \<Rightarrow> (event list \<times> (exn + string)) option"
where
  "poll_loop w tid st current_try n tr =
     (case is_done w tid st of
        (ev, Inl e) \<Rightarrow> Some (tr @ ev, Inl e)
      | (ev, Inr done) \<Rightarrow>
          if done then Some (tr @ ev, Inr st)
          else
            (case get_task_minimal w n of
               Inr st' \<Rightarrow>
                 poll_loop w tid st' current_try (Suc n)
                   (tr @ ev @ [Sleep current_try, GetTask tid MINIMAL])
             | Inl e \<Rightarrow>
                 if is_Exception e then
                   (if current_try \<le> max_tries
                    then poll_loop w tid st (Suc current_try) (Suc n)
                           (tr @ ev @ [Sleep current_try, GetTask tid MINIMAL])
                    else Some (tr @ ev @ [Sleep current_try, GetTask tid MINIMAL], Inr st))
                 else Some (tr @ ev @ [Sleep current_try, GetTask tid MINIMAL], Inl e)))"

declare poll_loop.simps [code]

text \<open>\<open>v.decode("utf8")\<close> if \<open>v\<close> is bytes, and \<open>v\<close> otherwise.\<close>

fun decode :: "ext \<Rightarrow> pyval \<Rightarrow> exn + pyval" where
  "decode x (VBytes b) =
     (case utf8_decode x b of None \<Rightarrow> Inl UnicodeDecodeError | Some s \<Rightarrow> Inr (VStr s))"
| "decode x v = Inr v"

text \<open>The loop over \<open>outputs.items()\<close>, filling \<open>cleaned_outputs\<close>.\<close>

fun clean_loop ::
    "ext \<Rightarrow> (pyval \<times> pyval) list \<Rightarrow> (pyval \<times> pyval) list \<Rightarrow> exn + (pyval \<times> pyval) list" where
  "clean_loop x [] cleaned_outputs = Inr cleaned_outputs"
| "clean_loop x ((k, v) # rest) cleaned_outputs =
     (case decode x k of
        Inl e \<Rightarrow> Inl e
      | Inr k' \<Rightarrow>
          (case decode x v of
             Inl e \<Rightarrow> Inl e
           | Inr v' \<Rightarrow> clean_loop x rest (dict_set k' v' cleaned_outputs)))"

text \<open>
  \<open>cleanup(rm_tmpdir)\<close>. \<open>shutil.rmtree\<close> is called with \<open>ignore_errors\<close> and does not
  raise.
\<close>

definition cleanup :: "world \<Rightarrow> job \<Rightarrow> bool \<Rightarrow> event list" where
  "cleanup w j rm =
     Cleanup rm #
     (case stagedir j of
        Some s \<Rightarrow> if s \<noteq> [] \<and> path_exists w s then [RmTree s] else []
      | None \<Rightarrow> []) @
     (if rm then [RmTree (tmpdir j)] else [])"

datatype outcome = Returned | Raised exn

text \<open>
  The body of the last \<open>try\<close>. \<open>self.outputs\<close> is assigned inside the loop over the
  collected outputs, so it is still \<open>None\<close> when there is no output at all.
\<close>

definition collect_body :: "world \<Rightarrow> ext \<Rightarrow> event list \<times> (exn + unit)" where
  "collect_body w x =
     (case collect_outputs w of
        Inl e \<Rightarrow> ([], Inl e)
      | Inr outs \<Rightarrow>
          (case clean_loop x outs [] of
             Inl e \<Rightarrow> ([], Inl e)
           | Inr cleaned_outputs \<Rightarrow>
               (let self_outputs = (if outs = [] then None else Some cleaned_outputs)
                in ([OutputCallback self_outputs Success],
                    case output_callback w self_outputs Success of
                      Some e \<Rightarrow> Inl e
                    | None \<Rightarrow> Inr ()))))"

text \<open>
  The last \<open>try\<close> statement whole: both \<open>except\<close> clauses call the callback with an
  empty mapping and \<open>permanentFail\<close>; the \<open>finally\<close> clause calls \<open>cleanup\<close> on every
  way out, also when the handler itself raises.
\<close>

definition collect :: "world \<Rightarrow> ext \<Rightarrow> job \<Rightarrow> event list \<times> outcome" where
  "collect w x j =
     (case collect_body w x of
        (ev, Inr _) \<Rightarrow> (ev @ cleanup w j (rm_tmpdir j), Returned)
      | (ev, Inl e) \<Rightarrow>
          if is_Exception e then
            (ev @ [OutputCallback (Some []) PermanentFail] @ cleanup w j (rm_tmpdir j),
             case output_callback w (Some []) PermanentFail of
               Some e' \<Rightarrow> Raised e'
             | None \<Rightarrow> Returned)
          else (ev @ cleanup w j (rm_tmpdir j), Raised e))"

text \<open>
  \<open>run\<close>. \<open>None\<close>: the polling loop never ends. Otherwise the actions, in order, and
  whether the call returned or raised. \<open>create_task_msg\<close> and the submission are outside
  the last \<open>try\<close>; an \<open>Exception\<close> of the submission is raised again as a
  \<open>WorkflowException\<close>.
\<close>

definition run :: "world \<Rightarrow> ext \<Rightarrow> job \<Rightarrow> (event list \<times> outcome) option" where
  "run w x j =
     (case create_task_msg w x j of
        (ev, Inl e) \<Rightarrow> Some (ev, Raised e)
      | (ev, Inr task) \<Rightarrow>
          (case create_task w task of
             Inl e \<Rightarrow>
               Some (ev @ [CreateTask task],
                     Raised (if is_Exception e then WorkflowException e else e))
           | Inr tid \<Rightarrow>
               (case poll_loop w tid ''UNKNOWN'' 1 0 (ev @ [CreateTask task]) of
                  None \<Rightarrow> None
                | Some (tr, Inl e) \<Rightarrow> Some (tr, Raised e)
                | Some (tr, Inr st) \<Rightarrow>
                    (case collect w x j of (ev', out) \<Rightarrow> Some (tr @ ev', out)))))"


text \<open>Which kind of action an event is.\<close>

definition is_write :: "event \<Rightarrow> bool" where
  "is_write e = (case e of WriteFile _ _ \<Rightarrow> True | _ \<Rightarrow> False)"

definition is_create :: "event \<Rightarrow> bool" where
  "is_create e = (case e of CreateTask _ \<Rightarrow> True | _ \<Rightarrow> False)"

definition is_poll :: "event \<Rightarrow> bool" where
  "is_poll e = (case e of GetTask _ MINIMAL \<Rightarrow> True | _ \<Rightarrow> False)"

definition is_log_fetch :: "event \<Rightarrow> bool" where
  "is_log_fetch e = (case e of GetTask _ FULL \<Rightarrow> True | _ \<Rightarrow> False)"

definition is_callback :: "event \<Rightarrow> bool" where
  "is_callback e = (case e of OutputCallback _ _ \<Rightarrow> True | _ \<Rightarrow> False)"

definition is_cleanup :: "event \<Rightarrow> bool" where
  "is_cleanup e = (case e of Cleanup _ \<Rightarrow> True | _ \<Rightarrow> False)"

definition is_service :: "event \<Rightarrow> bool" where
  "is_service e = (case e of Sleep _ \<Rightarrow> True | GetTask _ _ \<Rightarrow> True | _ \<Rightarrow> False)"

section \<open>Notions used to state the properties\<close>

text \<open>
  \<open>emits x r inputs ls\<close>: the call returned \<open>r\<close> normally, having appended to \<open>inputs\<close>
  one descriptor for each reference of \<open>ls\<close>, in order, each the \<open>create_input\<close> of its
  reference.
\<close>

definition emits ::
    "ext \<Rightarrow> exn + tes_input list \<Rightarrow> tes_input list \<Rightarrow> (pyval \<times> dict) list \<Rightarrow> bool" where
  "emits x r inputs ls =
     (\<exists>ds. r = Inr (inputs @ ds) \<and> map Inr ds = map (\<lambda>(n, d). create_input x n d) ls)"

definition walkable :: "pyval \<Rightarrow> bool" where
  "walkable v = (file_tree v \<and> mappings_only v)"

text \<open>The last \<open>ResourceRequirement\<close> of a list of requirements.\<close>

definition last_resource :: "dict list \<Rightarrow> dict option" where
  "last_resource reqs =
     (case rev (filter (\<lambda>i. is_class i ''ResourceRequirement'') reqs) of
        [] \<Rightarrow> None | i # _ \<Rightarrow> Some i)"

text \<open>A \<open>DockerRequirement\<close> that declares \<open>dockerOutputDirectory\<close>.\<close>

definition docker_outdir :: "dict \<Rightarrow> bool" where
  "docker_outdir i =
     (is_class i ''DockerRequirement'' \<and> dict_get i ''dockerOutputDirectory'' VNone \<noteq> VNone)"

text \<open>A bound that is a number, with its value.\<close>

definition num_of :: "pyval \<Rightarrow> rat option" where
  "num_of v = (case v of VInt n \<Rightarrow> Some (of_int n) | VFloat q \<Rightarrow> Some q | _ \<Rightarrow> None)"



text \<open>
  For a whole job order: every parameter value a tree of well-formed references; no
  \<open>break\<close> met below any parameter; the references of all parameters in walking order;
  and the \<open>create_input\<close> of each reference of a list.
\<close>

definition file_trees :: "dict \<Rightarrow> bool" where
  "file_trees jo = list_all (\<lambda>(k, v). file_tree v) jo"

definition mappings_below :: "dict \<Rightarrow> bool" where
  "mappings_below jo = list_all (\<lambda>(k, v). mappings_only v) jo"

definition joborder_leaves :: "ext \<Rightarrow> dict \<Rightarrow> (pyval \<times> dict) list" where
  "joborder_leaves x jo = concat (map (\<lambda>(k, v). leaves x (VStr k) v) jo)"

definition descriptors :: "ext \<Rightarrow> (pyval \<times> dict) list \<Rightarrow> (exn + tes_input) list" where
  "descriptors x ls = map (\<lambda>(n, d). create_input x n d) ls"

text \<open>The names of the outputs of a translation, and the callbacks of a run.\<close>

definition output_names :: "exn + tes_task \<Rightarrow> string list" where
  "output_names r = (case r of Inl _ \<Rightarrow> [] | Inr t \<Rightarrow> map out_name (task_outputs t))"

definition callbacks :: "(event list \<times> outcome) option \<Rightarrow> event list" where
  "callbacks r = (case r of None \<Rightarrow> [] | Some (tr, out) \<Rightarrow> filter is_callback tr)"

section \<open>Examples\<close>

text \<open>Stand-ins for the library functions, to run the model on examples.\<close>

definition ext0 :: ext where
  "ext0 = \<lparr>path_join = (\<lambda>a b. a @ ''/'' @ b), file_uri = (\<lambda>p. ''file://'' @ p),
     path_basename = (\<lambda>p. p),
     upper = (\<lambda>s. if s = ''File'' then ''FILE''
                    else if s = ''Directory'' then ''DIRECTORY'' else s),
     str_of = (\<lambda>v. ''?''), utf8_decode = Some\<rparr>"

definition file_ref :: "string \<Rightarrow> dict" where
  "file_ref p = [(''class'', VStr ''File''), (''location'', VStr (''file://'' @ p)),
     (''path'', VStr p)]"

text \<open>
  A job order with an array of files, a file with a secondary file, and a record with a
  file field.
\<close>

definition joborder1 :: dict where
  "joborder1 =
     [(''reads'', VList [VDict (file_ref ''/in/a.fq''), VDict (file_ref ''/in/b.fq'')]),
      (''ref'', VDict (file_ref ''/in/g.fa'' @
         [(''secondaryFiles'',
           VList [VDict (file_ref ''/in/g.fa.fai'' @ [(''basename'', VStr ''g.fa.fai'')])])])),
      (''opts'', VDict [(''mask'', VDict (file_ref ''/in/m.bed''))])]"

text \<open>A job order whose parameter is an array of arrays of files.\<close>

definition joborder2 :: dict where
  "joborder2 = [(''reads'', VList [VList [VDict (file_ref ''/in/a.fq'')]])]"

text \<open>A job with nothing in it, to build examples from.\<close>

definition empty_spec :: cwl_spec where
  "empty_spec = \<lparr>spec_requirements = None, spec_hints = None, spec_doc = None,
     spec_id = None\<rparr>"

definition job0 :: job where
  "job0 = \<lparr>spec = empty_spec, joborder = [], listing = [], builder_requirements = [],
     name = ''job'', command_line = [''true''], environment = [], stdin = None,
     stdout = None, stderr = None, outdir = ''/out'', tmpdir = ''/tmp/t'',
     stagedir = Some ''/stage'', default_container = None, preserve_environment = None,
     preserve_entire_environment = False, rm_tmpdir = False\<rparr>"

text \<open>
  A service that accepts the task and answers \<open>RUNNING\<close> to the first three polls and
  \<open>COMPLETE\<close> from the fourth on; the collection finds one output.
\<close>

definition world0 :: world where
  "world0 = \<lparr>os_environ = [(''PATH'', ''/bin'')], fs_write = (\<lambda>loc c. None),
     path_exists = (\<lambda>p. True), create_task = (\<lambda>t. Inr (VStr ''task-1'')),
     get_task_minimal = (\<lambda>n. if n < 3 then Inr ''RUNNING'' else Inr ''COMPLETE''),
     get_task_full = Inr VNone,
     collect_outputs = Inr [(VStr ''out'', VStr ''x'')],
     output_callback = (\<lambda>outs st. None)\<rparr>"

text \<open>The task message of \<open>job0\<close>.\<close>

definition task0 :: tes_task where
  "task0 =
     \<lparr>task_name = ''job'', task_description = VStr [],
      task_executors =
        [\<lparr>ex_command = [''true''], ex_image = VStr ''python:2.7'',
          ex_workdir = ''/var/spool/cwl'', ex_stdout = VNone, ex_stderr = VNone,
          ex_stdin = None, ex_env = [(''HOME'', ''/out''), (''TMPDIR'', ''/tmp/t'')]\<rparr>],
      task_inputs = [],
      task_outputs =
        [\<lparr>out_name = ''workdir'', out_url = VStr ''file:///out/'',
          out_path = VStr ''/var/spool/cwl'', out_type = Some ''DIRECTORY''\<rparr>],
      task_resources = \<lparr>cpu_cores = VNone, ram_gb = VNone, disk_gb = VNone\<rparr>,
      task_tags = [(''CWLDocumentId'', VNone)]\<rparr>"

text \<open>
  A service on which the task ends in \<open>EXECUTOR_ERROR\<close>, for a tool that declares no
  output, so that the collection has nothing to look for and returns an empty mapping.
\<close>

definition world_failed :: world where
  "world_failed = world0\<lparr>get_task_minimal := (\<lambda>n. Inr ''EXECUTOR_ERROR''),
     collect_outputs := Inr []\<rparr>"

text \<open>A service that accepts the task and then fails every poll.\<close>

definition world_unreachable :: world where
  "world_unreachable =
     world0\<lparr>get_task_minimal := (\<lambda>n. Inl (ServiceError ''unreachable''))\<rparr>"

text \<open>A service on which the task ends in \<open>EXECUTOR_ERROR\<close> and the request for the logs fails.\<close>

definition world_no_logs :: world where
  "world_no_logs = world0\<lparr>get_task_minimal := (\<lambda>n. Inr ''EXECUTOR_ERROR''),
     get_task_full := Inl (ServiceError ''unreachable'')\<rparr>"

text \<open>A service that refuses the submission.\<close>

definition world_refused :: world where
  "world_refused = world0\<lparr>create_task := (\<lambda>t. Inl (ServiceError ''refused''))\<rparr>"

text \<open>
  Jobs: with stdout, stderr and a Docker output directory; with resources; with a
  dynamic resource request; with a dynamic resource request after a requirement whose
  RAM bound is beyond the range of a double; with a listing whose second entry has
  \<open>writable: false\<close>; and with a default image configured and a \<open>DockerRequirement\<close>
  that names no image.
\<close>

definition job_docker :: job where
  "job_docker = job0\<lparr>stdout := Some ''out.txt'', stderr := Some ''err.txt'',
     builder_requirements :=
       [[(''class'', VStr ''ResourceRequirement''), (''coresMin'', VInt 1),
         (''ramMin'', VInt 1024), (''outdirMin'', VInt 1024)],
        [(''class'', VStr ''DockerRequirement''), (''dockerPull'', VStr ''alpine:3''),
         (''dockerOutputDirectory'', VStr ''/data'')]]\<rparr>"

definition job_resources :: job where
  "job_resources = job0\<lparr>builder_requirements :=
       [[(''class'', VStr ''ResourceRequirement''), (''coresMin'', VInt 2),
         (''ramMin'', VInt 2048), (''outdirMin'', VFloat 953.674)]]\<rparr>"


definition job_huge :: job where
  "job_huge = job0\<lparr>builder_requirements :=
       [[(''class'', VStr ''ResourceRequirement''), (''coresMin'', VInt 1),
         (''ramMin'', VInt (10 ^ 400)), (''outdirMin'', VInt 1024)],
        [(''class'', VStr ''ResourceRequirement''), (''coresMin'', VInt 2),
         (''ramMin'', VStr ''$(inputs.memory)''), (''outdirMin'', VInt 1024)]]\<rparr>"

definition job_keyless :: job where
  "job_keyless = job0\<lparr>default_container := Some ''ubuntu:22.04'',
     spec := empty_spec\<lparr>spec_requirements :=
       Some [[(''class'', VStr ''DockerRequirement''),
              (''dockerFile'', VStr ''FROM debian'')]]\<rparr>\<rparr>"

definition job_writable :: job where
  "job_writable = job0\<lparr>listing :=
       [[(''class'', VStr ''File''), (''basename'', VStr ''a.txt''),
         (''location'', VStr ''/in/a.txt'')],
        [(''class'', VStr ''File''), (''basename'', VStr ''b.txt''),
         (''location'', VStr ''/in/b.txt''), (''writable'', VBool False)]]\<rparr>"

section \<open>Container image resolution\<close>

lemma foldl_docker_step:
  "foldl docker_step c reqs =
     (case last_docker reqs of
        None \<Rightarrow> c
      | Some i \<Rightarrow> dict_get i ''dockerPull'' (dict_get i ''dockerImageId'' default_image))"
proof (induction reqs rule: rev_induct)
  case Nil
  show ?case by (simp add: last_docker_def)
next
  case (snoc i reqs)
  show ?case
  proof (cases "is_class i ''DockerRequirement''")
    case True
    then show ?thesis by (simp add: last_docker_def docker_step_def)
  next
    case False
    then show ?thesis using snoc by (simp add: last_docker_def docker_step_def)
  qed
qed

lemma dict_get_explicit:
  "explicit_image i = Some img \<Longrightarrow>
     dict_get i ''dockerPull'' (dict_get i ''dockerImageId'' d) = img"
  by (auto simp: explicit_image_def dict_get_def split: option.splits)

lemma dict_get_not_explicit:
  "explicit_image i = None \<Longrightarrow>
     dict_get i ''dockerPull'' (dict_get i ''dockerImageId'' d) = d"
  by (auto simp: explicit_image_def dict_get_def split: option.splits)

text \<open>
  What \<open>get_container\<close> returns in every case: the last \<open>DockerRequirement\<close> decides alone,
  and one without \<open>dockerPull\<close> and \<open>dockerImageId\<close> gives the hard-coded image.
\<close>

lemma get_container_cases:
  "get_container j =
     (case last_docker (spec_reqs j) of
        None \<Rightarrow>
          (case default_container j of
             None \<Rightarrow> default_image
           | Some c \<Rightarrow> if c \<noteq> [] then VStr c else default_image)
      | Some i \<Rightarrow>
          (case explicit_image i of Some img \<Rightarrow> img | None \<Rightarrow> default_image))"
proof (cases "last_docker (spec_reqs j)")
  case None
  then show ?thesis by (simp add: get_container_def foldl_docker_step)
next
  case (Some i)
  show ?thesis
  proof (cases "explicit_image i")
    case None
    with Some show ?thesis
      by (simp add: get_container_def foldl_docker_step dict_get_not_explicit)
  next
    case (Some img)
    with \<open>last_docker (spec_reqs j) = Some i\<close> show ?thesis
      by (simp add: get_container_def foldl_docker_step dict_get_explicit)
  qed
qed

text \<open>
  Where \<open>get_container\<close> follows the order of the specification: on every job but those
  with a default image configured whose last \<open>DockerRequirement\<close> names no image.
\<close>

lemma get_container_order:
  assumes "\<And>i. last_docker (spec_reqs j) = Some i \<Longrightarrow>
     explicit_image i \<noteq> None \<or> default_container j = None \<or> default_container j = Some []"
  shows "get_container j = spec_image (default_container j) (spec_reqs j)"
proof (cases "last_docker (spec_reqs j)")
  case None
  then show ?thesis by (simp add: get_container_cases spec_image_def)
next
  case (Some i)
  show ?thesis
  proof (cases "explicit_image i")
    case (Some img)
    with \<open>last_docker (spec_reqs j) = Some i\<close> show ?thesis
      by (simp add: get_container_cases spec_image_def)
  next
    case None
    with assms [OF Some] have "default_container j = None \<or> default_container j = Some []"
      by simp
    with Some None show ?thesis
      by (auto simp: get_container_cases spec_image_def)
  qed
qed

lemma get_container_last_wins:
  "get_container
     (job0\<lparr>default_container := Some ''ubuntu:22.04'',
        spec := empty_spec\<lparr>
          spec_requirements := Some [[(''class'', VStr ''DockerRequirement''),
             (''dockerPull'', VStr ''alpine:3'')]],
          spec_hints := Some [[(''class'', VStr ''DockerRequirement''),
             (''dockerImageId'', VStr ''busybox'')]]\<rparr>\<rparr>) = VStr ''busybox''"
  by code_simp

text \<open>
  C5 fails on the code. \<open>get_container\<close> starts from the configured default image, and then
  lets a \<open>DockerRequirement\<close> that names no image (it has neither \<open>dockerPull\<close> nor
  \<open>dockerImageId\<close>; here it builds from a \<open>dockerFile\<close>) overwrite it with the hard-coded
  image, where the order of the specification keeps the configured one.
\<close>

theorem get_container_drops_configured_default:
  "get_container job_keyless = VStr ''python:2.7''
   \<and> spec_image (default_container job_keyless) (spec_reqs job_keyless) = VStr ''ubuntu:22.04''"
  by code_simp

section \<open>The walk of \<open>parse_job_order\<close>\<close>

lemma emits_Nil: "emits x (Inr inputs) inputs []"
  by (simp add: emits_def)

lemma emits_single:
  "create_input x n d = Inr inp \<Longrightarrow> emits x (Inr (inputs @ [inp])) inputs [(n, d)]"
  by (simp add: emits_def)

lemma emits_trans:
  assumes "emits x (Inr mid) inputs l1" and "emits x r mid l2"
  shows "emits x r inputs (l1 @ l2)"
proof -
  from assms(1) obtain d1 where 1: "mid = inputs @ d1"
    and m1: "map Inr d1 = map (\<lambda>(n, d). create_input x n d) l1"
    by (auto simp: emits_def)
  from assms(2) obtain d2 where 2: "r = Inr (mid @ d2)"
    and m2: "map Inr d2 = map (\<lambda>(n, d). create_input x n d) l2"
    by (auto simp: emits_def)
  show ?thesis
    unfolding emits_def using 1 2 m1 m2 by (intro exI [of _ "d1 @ d2"]) simp
qed

lemma emits_Inr: "emits x r inputs ls \<Longrightarrow> \<exists>mid. r = Inr mid"
  by (auto simp: emits_def)

lemma create_input_leaf:
  assumes "is_leaf d" and "wf_leaf d"
  shows "\<exists>inp. create_input x k d = Inr inp"
  using assms
  by (auto simp: is_leaf_def wf_leaf_def has_key_def create_input_def getitem_def ebind_def
      py_upper_def)

lemma file_tree_children: "file_tree v \<Longrightarrow> list_all file_tree (children v)"
  by (subst (asm) file_tree.simps) simp

lemma file_tree_node: "file_tree v \<Longrightarrow> wf_node v"
  by (subst (asm) file_tree.simps) simp

lemma mappings_only_children:
  "mappings_only v \<Longrightarrow> list_all is_mapping (children v) \<and> list_all mappings_only (children v)"
  by (subst (asm) mappings_only.simps) simp

lemma leaves_leaf:
  "is_leaf d \<Longrightarrow> leaves x k (VDict d) =
     (k, d) # concat (map (\<lambda>f. leaves x (basename_of f) f) (secondary_files d))"
  by (subst leaves.simps) (simp add: named_children_def comp_def)

lemma leaves_dict:
  "\<not> is_leaf d \<Longrightarrow> leaves x k (VDict d) =
     concat (map (\<lambda>(sk, sv). leaves x (VStr sk) sv) d)"
  by (subst leaves.simps) (simp add: named_children_def comp_def split_def)

lemma leaves_list:
  "leaves x k (VList vs) =
     concat (map (\<lambda>(n, e). leaves x (index_name x k n) e) (enumerate 0 vs))"
  by (subst leaves.simps) (simp add: named_children_def comp_def split_def)

lemma walkable_children:
  "walkable v \<Longrightarrow> list_all (\<lambda>c. is_mapping c \<and> walkable c) (children v)"
  by (auto simp: walkable_def list_all_iff dest!: file_tree_children mappings_only_children)

lemma parse_emits:
  "walkable v \<Longrightarrow> emits x (parse_job_order x k v inputs) inputs (leaves x k v)"
  "list_all (\<lambda>f. is_secondary f \<and> walkable f) fs \<Longrightarrow>
     emits x (secondary_loop x fs inputs) inputs
       (concat (map (\<lambda>f. leaves x (basename_of f) f) fs))"
  "list_all (\<lambda>c. is_mapping c \<and> walkable c) (map snd d) \<Longrightarrow>
     emits x (items_loop x d inputs) inputs
       (concat (map (\<lambda>(sk, sv). leaves x (VStr sk) sv) d))"
  "list_all (\<lambda>c. is_mapping c \<and> walkable c) vs \<Longrightarrow>
     emits x (range_loop x k i vs inputs) inputs
       (concat (map (\<lambda>(n, e). leaves x (index_name x k n) e) (enumerate i vs)))"
proof (induction x k v inputs and x fs inputs and x d inputs and x k i vs inputs
    rule: parse_job_order_secondary_loop_items_loop_range_loop.induct)
  case (1 x k v inputs)
  note wk = walkable_children [OF "1.prems"]
  from "1.prems" have node: "wf_node v" by (simp add: walkable_def file_tree_node)
  show ?case
  proof (cases v)
    case (VDict d)
    show ?thesis
    proof (cases "is_leaf d")
      case True
      with node VDict have wf: "wf_leaf d" by (simp add: wf_node_def)
      from create_input_leaf [OF True wf] obtain inp where inp: "create_input x k d = Inr inp"
        by blast
      show ?thesis
      proof (cases "map_of d ''secondaryFiles''")
        case None
        then have "leaves x k v = [(k, d)]"
          using VDict True by (simp add: leaves_leaf secondary_files_def)
        moreover have "parse_job_order x k v inputs = Inr (inputs @ [inp])"
          using VDict True inp None by (simp add: parse_job_order.simps)
        ultimately show ?thesis using emits_single [OF inp] by simp
      next
        case (Some sf)
        with wf obtain fs where sf: "sf = VList fs" and sec: "list_all is_secondary fs"
          by (auto simp: wf_leaf_def split: pyval.splits)
        have ch: "children v = fs"
          using VDict True Some sf by (simp add: children_def secondary_files_def)
        have lv: "leaves x k v = [(k, d)] @ concat (map (\<lambda>f. leaves x (basename_of f) f) fs)"
          using VDict True Some sf by (simp add: leaves_leaf secondary_files_def)
        have pj: "parse_job_order x k v inputs = secondary_loop x fs (inputs @ [inp])"
          using VDict True inp Some sf by (simp add: parse_job_order.simps)
        have "list_all (\<lambda>f. is_secondary f \<and> walkable f) fs"
          using wk sec ch by (auto simp: list_all_iff)
        from "1.IH"(2) [OF VDict True inp Some sf this]
        have "emits x (secondary_loop x fs (inputs @ [inp])) (inputs @ [inp])
                (concat (map (\<lambda>f. leaves x (basename_of f) f) fs))" .
        from emits_trans [OF emits_single [OF inp] this] show ?thesis
          by (simp add: lv pj)
      qed
    next
      case False
      have ch: "children v = map snd d" using VDict False by (simp add: children_def)
      have lv: "leaves x k v = concat (map (\<lambda>(sk, sv). leaves x (VStr sk) sv) d)"
        using VDict False by (simp add: leaves_dict)
      have pj: "parse_job_order x k v inputs = items_loop x d inputs"
        using VDict False by (simp add: parse_job_order.simps)
      from "1.IH"(3) [OF VDict False] wk ch show ?thesis by (simp add: lv pj)
    qed
  next
    case (VList vs)
    have ch: "children v = vs" using VList by (simp add: children_def)
    have lv: "leaves x k v =
        concat (map (\<lambda>(n, e). leaves x (index_name x k n) e) (enumerate 0 vs))"
      using VList by (simp add: leaves_list)
    have pj: "parse_job_order x k v inputs = range_loop x k 0 vs inputs"
      using VList by (simp add: parse_job_order.simps)
    from "1.IH"(1) [OF VList] wk ch show ?thesis by (simp add: lv pj)
  qed (use node in \<open>simp_all add: wf_node_def\<close>)
next
  case (2 x inputs)
  show ?case by (simp add: emits_Nil)
next
  case (3 x f fs inputs)
  from "3.prems" have sec: "is_secondary f" and wf: "walkable f"
    and rest: "list_all (\<lambda>f. is_secondary f \<and> walkable f) fs" by simp_all
  from sec obtain b where b: "py_getitem f ''basename'' = Inr b" and bn: "basename_of f = b"
    by (auto simp: is_secondary_def py_getitem_def getitem_def basename_of_def has_key_def
        dict_get_def split: pyval.splits)
  from "3.IH"(1) [OF b wf] have e1: "emits x (parse_job_order x b f inputs) inputs (leaves x b f)" .
  then obtain mid where mid: "parse_job_order x b f inputs = Inr mid"
    using emits_Inr by blast
  from "3.IH"(2) [OF b mid rest]
  have e2: "emits x (secondary_loop x fs mid) mid
      (concat (map (\<lambda>f. leaves x (basename_of f) f) fs))" .
  from emits_trans [OF e1 [unfolded mid] e2] show ?case
    by (simp add: b mid bn)
next
  case (4 x inputs)
  show ?case by (simp add: emits_Nil)
next
  case (5 x sk sv rest inputs)
  from "5.prems" have m: "is_mapping sv" and wf: "walkable sv"
    and rest: "list_all (\<lambda>c. is_mapping c \<and> walkable c) (map snd rest)" by simp_all
  from m obtain m' where sv: "sv = VDict m'" by (auto simp: is_mapping_def split: pyval.splits)
  from "5.IH"(1) [OF sv wf]
  have e1: "emits x (parse_job_order x (VStr sk) sv inputs) inputs (leaves x (VStr sk) sv)" .
  then obtain mid where mid: "parse_job_order x (VStr sk) sv inputs = Inr mid"
    using emits_Inr by blast
  from "5.IH"(2) [OF sv mid rest]
  have e2: "emits x (items_loop x rest mid) mid
      (concat (map (\<lambda>(sk, sv). leaves x (VStr sk) sv) rest))" .
  from emits_trans [OF e1 [unfolded mid] e2] show ?case
    using sv mid by simp
next
  case (6 x k i inputs)
  show ?case by (simp add: emits_Nil)
next
  case (7 x k i v vs inputs)
  from "7.prems" have m: "is_mapping v" and wf: "walkable v"
    and rest: "list_all (\<lambda>c. is_mapping c \<and> walkable c) vs" by simp_all
  from m obtain m' where v: "v = VDict m'" by (auto simp: is_mapping_def split: pyval.splits)
  from "7.IH"(1) [OF v wf]
  have e1: "emits x (parse_job_order x (index_name x k i) v inputs) inputs
      (leaves x (index_name x k i) v)" .
  then obtain mid where mid: "parse_job_order x (index_name x k i) v inputs = Inr mid"
    using emits_Inr by blast
  from "7.IH"(2) [OF v mid rest]
  have e2: "emits x (range_loop x k (Suc i) vs mid) mid
      (concat (map (\<lambda>(n, e). leaves x (index_name x k n) e) (enumerate (Suc i) vs)))" .
  from emits_trans [OF e1 [unfolded mid] e2] show ?case
    using v mid by simp
qed


text \<open>
  C6, as stated, fails: in a job order whose parameter is an array of arrays of files,
  every branch ends in a well-formed file reference, and the walk emits no descriptor,
  since the inner list is not a dict and the loop over the outer list breaks at once.
\<close>

theorem parse_job_order_counterexample:
  "file_trees joborder2
   \<and> joborder_loop ext0 joborder2 [] = Inr []
   \<and> joborder_leaves ext0 joborder2 = [(VStr ''reads[0][0]'', file_ref ''/in/a.fq'')]"
  by code_simp

text \<open>
  C6, amended: for every job order in which each parameter value is a tree of
  well-formed file and directory references where every value of a mapping that is not
  a reference and every element of a list is itself a mapping (so a list of references
  is the value of a parameter or a \<open>secondaryFiles\<close> list, and is never nested in
  another list or in a record), the walk returns normally and appends exactly one
  descriptor per reference, secondary files included transitively, in walking order,
  none left out and none twice. The loop over the entries of a mapping and the loop over
  a list stop at the first element that is not a mapping.
\<close>

theorem parse_job_order_descriptors:
  "(file_trees jo \<and> mappings_below jo \<longrightarrow>
      (\<exists>ds. joborder_loop x jo inputs = Inr (inputs @ ds) \<and>
         map Inr ds = descriptors x (joborder_leaves x jo)))
   \<and> (\<not> is_mapping sv \<longrightarrow> items_loop x ((sk, sv) # rest) inputs = Inr inputs)
   \<and> (\<not> is_mapping e \<longrightarrow> range_loop x k i (e # es) inputs = Inr inputs)"
proof (intro conjI impI)
  assume "file_trees jo \<and> mappings_below jo"
  then have "list_all (\<lambda>(k, v). walkable v) jo"
    by (auto simp: file_trees_def mappings_below_def walkable_def list_all_iff)
  then have "emits x (joborder_loop x jo inputs) inputs (joborder_leaves x jo)"
  proof (induction jo arbitrary: inputs)
    case Nil
    show ?case by (simp add: emits_Nil joborder_leaves_def)
  next
    case (Cons kv jo)
    obtain k v where kv: "kv = (k, v)" by (cases kv)
    from Cons.prems kv have wk: "walkable v"
      and rest: "list_all (\<lambda>(k, v). walkable v) jo"
      by simp_all
    from parse_emits(1) [OF wk]
    have e1: "emits x (parse_job_order x (VStr k) v inputs) inputs (leaves x (VStr k) v)" .
    then obtain mid where mid: "parse_job_order x (VStr k) v inputs = Inr mid"
      using emits_Inr by blast
    from Cons.IH [OF rest, of mid]
    have e2: "emits x (joborder_loop x jo mid) mid (joborder_leaves x jo)" .
    from emits_trans [OF e1 [unfolded mid] e2] show ?case
      using kv mid by (simp add: joborder_leaves_def)
  qed
  then show "\<exists>ds. joborder_loop x jo inputs = Inr (inputs @ ds) \<and>
         map Inr ds = descriptors x (joborder_leaves x jo)"
    by (simp add: emits_def descriptors_def)
next
  assume "\<not> is_mapping sv"
  then show "items_loop x ((sk, sv) # rest) inputs = Inr inputs"
    by (cases sv) (simp_all add: is_mapping_def)
next
  assume "\<not> is_mapping e"
  then show "range_loop x k i (e # es) inputs = Inr inputs"
    by (cases e) (simp_all add: is_mapping_def)
qed

theorem parse_job_order_descriptors_witness:
  "file_trees joborder1 \<and> mappings_below joborder1
   \<and> (\<exists>ds. joborder_loop ext0 joborder1 [] = Inr ds \<and> length ds = 5)
   \<and> \<not> is_mapping (VInt 3)
   \<and> items_loop ext0 [(''n'', VInt 3), (''f'', VDict (file_ref ''/in/a.fq''))] [] = Inr []
   \<and> range_loop ext0 (VStr ''p'') 0 [VInt 3, VDict (file_ref ''/in/a.fq'')] [] = Inr []"
proof -
  have h: "file_trees joborder1 \<and> mappings_below joborder1"
    by code_simp
  have n: "\<not> is_mapping (VInt 3)"
    by (simp add: is_mapping_def)
  have l: "length (joborder_leaves ext0 joborder1) = 5"
    by code_simp
  note t = parse_job_order_descriptors [of joborder1 ext0 "[]" "VInt 3" "''n''"
      "[(''f'', VDict (file_ref ''/in/a.fq''))]" "VInt 3" "VStr ''p''" 0
      "[VDict (file_ref ''/in/a.fq'')]"]
  from t h obtain ds where ds: "joborder_loop ext0 joborder1 [] = Inr ds"
    and m: "map Inr ds = descriptors ext0 (joborder_leaves ext0 joborder1)"
    by auto
  from m have "length (map Inr ds :: (exn + tes_input) list) = 5"
    using l by (simp add: descriptors_def)
  then have "length ds = 5" by simp
  with ds h n t show ?thesis by simp
qed

section \<open>Translation: outputs and resources\<close>

lemma last_resource_Cons:
  "last_resource (i # rest) =
     (case last_resource rest of
        Some i' \<Rightarrow> Some i'
      | None \<Rightarrow> if is_class i ''ResourceRequirement'' then Some i else None)"
  by (cases "rev (filter (\<lambda>i. is_class i ''ResourceRequirement'') rest)")
    (simp_all add: last_resource_def)

lemma class_exclusive:
  "is_class i ''ResourceRequirement'' \<Longrightarrow> \<not> is_class i ''DockerRequirement''"
  by (simp add: is_class_def)

lemma requirements_loop_result:
  assumes "requirements_loop x j reqs (c, r, d, outs) = Inr (c', r', d', outs')"
  shows "outs' = outs @ map (docker_output x j) (filter docker_outdir reqs) \<and>
     (case last_resource reqs of
        None \<Rightarrow> c' = c \<and> r' = r \<and> d' = d
      | Some i \<Rightarrow> c' = selected_cores i \<and> to_gb (selected_ram i) = Inr r' \<and>
          to_gb (selected_disk i) = Inr d')"
  using assms
proof (induction reqs arbitrary: c r d outs)
  case Nil
  then show ?case by (simp add: last_resource_def)
next
  case (Cons i rest)
  show ?case
  proof (cases "is_class i ''ResourceRequirement''")
    case True
    with Cons.prems obtain r1 d1 where r1: "to_gb (selected_ram i) = Inr r1"
      and d1: "to_gb (selected_disk i) = Inr d1"
      and rec: "requirements_loop x j rest (selected_cores i, r1, d1, outs) = Inr (c', r', d', outs')"
      by (auto simp: Let_def split: if_splits sum.splits)
    from Cons.IH [OF rec] True r1 d1 show ?thesis
      by (auto simp: last_resource_Cons docker_outdir_def class_exclusive split: option.splits)
  next
    case False
    show ?thesis
    proof (cases "docker_outdir i")
      case True
      with False Cons.prems
      have rec: "requirements_loop x j rest (c, r, d, outs @ [docker_output x j i]) =
          Inr (c', r', d', outs')"
        by (simp add: docker_outdir_def)
      from Cons.IH [OF rec] True False show ?thesis
        by (auto simp: last_resource_Cons split: option.splits)
    next
      case F: False
      with False Cons.prems
      have rec: "requirements_loop x j rest (c, r, d, outs) = Inr (c', r', d', outs')"
        by (auto simp: docker_outdir_def split: if_splits)
      from Cons.IH [OF rec] F False show ?thesis
        by (auto simp: last_resource_Cons split: option.splits)
    qed
  qed
qed




section \<open>Actions of a run\<close>

lemma is_done_not_terminal:
  "st \<notin> set terminal_states \<Longrightarrow> is_done w tid st = ([], Inr False)"
  by (simp add: is_done_def)

lemma is_done_complete: "is_done w tid ''COMPLETE'' = ([], Inr True)"
  by (simp add: is_done_def terminal_states_def)

lemma poll_loop_step:
  assumes "st \<notin> set terminal_states" and "get_task_minimal w n = Inr st'"
  shows "poll_loop w tid st ct n tr =
     poll_loop w tid st' ct (Suc n) (tr @ [Sleep ct, GetTask tid MINIMAL])"
  by (subst poll_loop.simps) (simp add: is_done_not_terminal assms)

lemma poll_loop_complete: "poll_loop w tid ''COMPLETE'' ct n tr = Some (tr, Inr ''COMPLETE'')"
  by (subst poll_loop.simps) (simp add: is_done_complete)

lemma not_terminal_UNKNOWN: "''UNKNOWN'' \<notin> set terminal_states"
  by (simp add: terminal_states_def)

lemma not_terminal_RUNNING: "''RUNNING'' \<notin> set terminal_states"
  by (simp add: terminal_states_def)

lemma stage_item_writes: "stage_item w x j item = (ev, r) \<Longrightarrow> \<forall>e \<in> set ev. is_write e"
  by (auto simp: stage_item_def is_write_def split: sum.splits option.splits if_splits)

lemma parse_listing_writes:
  "parse_listing w x j ls inputs = (ev, r) \<Longrightarrow> \<forall>e \<in> set ev. is_write e"
proof (induction ls arbitrary: inputs ev r)
  case Nil
  then show ?case by simp
next
  case (Cons item ls)
  show ?case
  proof (cases "has_key item ''writable''")
    case True
    with Cons.prems show ?thesis by simp
  next
    case False
    obtain ev1 r1 where st: "stage_item w x j item = (ev1, r1)"
      by (cases "stage_item w x j item")
    note w1 = stage_item_writes [OF st]
    show ?thesis
    proof (cases r1)
      case (Inl e)
      with Cons.prems False st w1 show ?thesis by auto
    next
      case (Inr loc)
      show ?thesis
      proof (cases "listing_input x item loc")
        case (Inl e)
        with Cons.prems False st Inr w1 show ?thesis by auto
      next
        case (Inr parameter)
        obtain ev2 r2 where rec: "parse_listing w x j ls (inputs @ [parameter]) = (ev2, r2)"
          by (cases "parse_listing w x j ls (inputs @ [parameter])")
        from Cons.IH [OF rec] have "\<forall>e \<in> set ev2. is_write e" .
        moreover from Cons.prems False st \<open>r1 = Inr loc\<close> Inr rec have "ev = ev1 @ ev2"
          by simp
        ultimately show ?thesis using w1 by auto
      qed
    qed
  qed
qed

lemma create_task_msg_writes:
  assumes "create_task_msg w x j = (ev, r)"
  shows "\<forall>e \<in> set ev. is_write e"
proof (cases "joborder_loop x (joborder j) []")
  case (Inl e)
  with assms show ?thesis
    by (simp add: create_task_msg_def get_inputs_def)
next
  case (Inr inputs)
  obtain ev1 r1 where pl: "parse_listing w x j (listing j) inputs = (ev1, r1)"
    by (cases "parse_listing w x j (listing j) inputs")
  with assms Inr have "ev = ev1"
    by (auto simp: create_task_msg_def get_inputs_def Let_def split: sum.splits prod.splits)
  with parse_listing_writes [OF pl] show ?thesis by simp
qed

lemma filter_writes:
  assumes "\<forall>e \<in> set ev. is_write e"
  shows "filter is_create ev = []" "filter is_poll ev = []" "filter is_log_fetch ev = []"
    "filter is_callback ev = []" "filter is_cleanup ev = []"
  using assms
  by (auto simp: filter_empty_conv is_write_def is_create_def is_poll_def is_log_fetch_def
      is_callback_def is_cleanup_def split: event.splits)

lemma is_done_events:
  "is_done w tid st = (ev, r) \<Longrightarrow> \<forall>e \<in> set ev. is_service e"
  by (auto simp: is_done_def is_service_def split: if_splits sum.splits)

lemma poll_loop_events:
  assumes "poll_loop w tid st ct n tr = Some y"
  shows "\<exists>more. fst y = tr @ more \<and> (\<forall>e \<in> set more. is_service e)"
proof (rule poll_loop.raw_induct
    [where P = "\<lambda>w tid st ct n tr y. \<exists>more. fst y = tr @ more \<and> (\<forall>e \<in> set more. is_service e)",
      OF _ assms])
  fix pl w tid st ct n tr y
  assume IH: "\<And>w tid st ct n tr y. pl w tid st ct n tr = Some y \<Longrightarrow>
      \<exists>more. fst y = tr @ more \<and> (\<forall>e \<in> set more. is_service e)"
    and body: "(case is_done w tid st of
        (ev, Inl e) \<Rightarrow> Some (tr @ ev, Inl e)
      | (ev, Inr fin) \<Rightarrow>
          if fin then Some (tr @ ev, Inr st)
          else
            (case get_task_minimal w n of
               Inr st' \<Rightarrow>
                 pl w tid st' ct (Suc n) (tr @ ev @ [Sleep ct, GetTask tid MINIMAL])
             | Inl e \<Rightarrow>
                 if is_Exception e then
                   (if ct \<le> max_tries
                    then pl w tid st (Suc ct) (Suc n)
                           (tr @ ev @ [Sleep ct, GetTask tid MINIMAL])
                    else Some (tr @ ev @ [Sleep ct, GetTask tid MINIMAL], Inr st))
                 else Some (tr @ ev @ [Sleep ct, GetTask tid MINIMAL], Inl e))) = Some y"
  obtain ev r where d: "is_done w tid st = (ev, r)" by (cases "is_done w tid st")
  note sv = is_done_events [OF d]
  have sv2: "\<forall>e \<in> set (ev @ [Sleep ct, GetTask tid MINIMAL]). is_service e"
    using sv by (simp add: is_service_def)
  show "\<exists>more. fst y = tr @ more \<and> (\<forall>e \<in> set more. is_service e)"
  proof (cases r)
    case (Inl e)
    with body d sv show ?thesis by auto
  next
    case (Inr fin)
    show ?thesis
    proof (cases fin)
      case True
      with body d Inr sv show ?thesis by auto
    next
      case False
      show ?thesis
      proof (cases "get_task_minimal w n")
        case (Inr st')
        with body d \<open>r = Inr fin\<close> False
        have "pl w tid st' ct (Suc n) (tr @ ev @ [Sleep ct, GetTask tid MINIMAL]) = Some y"
          by simp
        from IH [OF this] obtain more where
          "fst y = (tr @ ev @ [Sleep ct, GetTask tid MINIMAL]) @ more"
          "\<forall>e \<in> set more. is_service e" by blast
        with sv2 show ?thesis
          by (intro exI [of _ "ev @ [Sleep ct, GetTask tid MINIMAL] @ more"]) auto
      next
        case (Inl e)
        show ?thesis
        proof (cases "is_Exception e \<and> ct \<le> max_tries")
          case True
          with body d \<open>r = Inr fin\<close> False Inl
          have "pl w tid st (Suc ct) (Suc n)
              (tr @ ev @ [Sleep ct, GetTask tid MINIMAL]) = Some y"
            by simp
          from IH [OF this] obtain more where
            "fst y = (tr @ ev @ [Sleep ct, GetTask tid MINIMAL]) @ more"
            "\<forall>e \<in> set more. is_service e" by blast
          with sv2 show ?thesis
            by (intro exI [of _ "ev @ [Sleep ct, GetTask tid MINIMAL] @ more"]) auto
        next
          case F: False
          with body d \<open>r = Inr fin\<close> False Inl
          have "fst y = tr @ ev @ [Sleep ct, GetTask tid MINIMAL]"
            by (auto split: if_splits)
          with sv2 show ?thesis by auto
        qed
      qed
    qed
  qed
qed

lemma create_task_msg_job0: "create_task_msg world0 ext0 job0 = ([], Inr task0)"
  by code_simp

lemma collect_ends_with_cleanup:
  "\<exists>cb out. collect w x j = (cb @ cleanup w j (rm_tmpdir j), out) \<and>
     (\<forall>e \<in> set cb. is_callback e)"
proof -
  obtain ev r where b: "collect_body w x = (ev, r)" by (cases "collect_body w x")
  then have cbs: "\<forall>e \<in> set ev. is_callback e"
    by (auto simp: collect_body_def Let_def is_callback_def split: sum.splits)
  show ?thesis
  proof (cases r)
    case (Inr u)
    with b cbs show ?thesis by (auto simp: collect_def)
  next
    case (Inl e)
    show ?thesis
    proof (cases "is_Exception e")
      case True
      with b Inl have "collect w x j =
          ((ev @ [OutputCallback (Some []) PermanentFail]) @ cleanup w j (rm_tmpdir j),
           case output_callback w (Some []) PermanentFail of
             Some e' \<Rightarrow> Raised e' | None \<Rightarrow> Returned)"
        by (simp add: collect_def)
      moreover have "\<forall>e \<in> set (ev @ [OutputCallback (Some []) PermanentFail]). is_callback e"
        using cbs by (simp add: is_callback_def)
      ultimately show ?thesis by blast
    next
      case False
      with b Inl cbs show ?thesis by (auto simp: collect_def)
    qed
  qed
qed

lemma cleanup_once: "filter is_cleanup (cleanup w j b) = [Cleanup b]"
  by (simp add: cleanup_def is_cleanup_def split: option.splits)

lemma filter_none:
  assumes "\<forall>e \<in> set ev. P e" and "\<And>e. P e \<Longrightarrow> \<not> Q e"
  shows "filter Q ev = []"
  using assms by (auto simp: filter_empty_conv)

lemma parse_listing_append:
  "parse_listing w x j (pre @ rest) inputs =
     (case parse_listing w x j pre inputs of
        (ev, Inl e) \<Rightarrow> (ev, Inl e)
      | (ev, Inr ins) \<Rightarrow> (case parse_listing w x j rest ins of (ev', r) \<Rightarrow> (ev @ ev', r)))"
proof (induction pre arbitrary: inputs)
  case Nil
  show ?case by (simp split: prod.splits)
next
  case (Cons item pre)
  show ?case
    by (simp add: Cons.IH split: prod.splits sum.splits)
qed

lemma run_translation_fails:
  "create_task_msg w x j = (ev, Inl e) \<Longrightarrow> run w x j = Some (ev, Raised e)"
  by (simp add: run_def)

lemma no_create_in_writes: "\<forall>e \<in> set ev. is_write e \<Longrightarrow> filter is_create ev = []"
  by (rule filter_none) (auto simp: is_write_def is_create_def split: event.splits)

section \<open>The claims about translation\<close>

text \<open>
  C4, as stated, fails: with a \<open>DockerRequirement\<close> that declares
  \<open>dockerOutputDirectory\<close>, the descriptor of that directory is appended after the
  descriptor of the working directory, which is then not the last one.
\<close>

theorem create_task_msg_outputs_counterexample:
  "output_names (snd (create_task_msg world0 ext0 job_docker)) =
     [''stdout'', ''stderr'', ''workdir'', ''dockerOutputDirectory'']"
  by code_simp

text \<open>
  C4, amended: in every task that the translation produces, the output descriptors
  are, in this order, the descriptor of stdout and of stderr when declared, the
  directory-typed descriptor of the whole working directory (from the in-container
  working directory to the local output directory of the job), and one directory-typed
  descriptor for each \<open>DockerRequirement\<close> of the job that declares
  \<open>dockerOutputDirectory\<close>. The descriptor of the working directory is always there; it
  is the last one exactly when no \<open>DockerRequirement\<close> declares \<open>dockerOutputDirectory\<close>.
\<close>

theorem create_task_msg_outputs:
  assumes msg: "create_task_msg w x j = (ev, Inr task)"
  shows "task_outputs task =
       stdout_output x j @ stderr_output x j @ [workdir_output x j] @
       map (docker_output x j) (filter docker_outdir (builder_requirements j))
     \<and> (last (task_outputs task) = workdir_output x j \<longleftrightarrow>
          filter docker_outdir (builder_requirements j) = [])"
proof -
  let ?outs = "stdout_output x j @ stderr_output x j @ [workdir_output x j]"
  let ?dock = "map (docker_output x j) (filter docker_outdir (builder_requirements j))"
  from msg obtain c' r' d' outs' where
    loop: "requirements_loop x j (builder_requirements j) (VNone, VNone, VNone, ?outs) =
       Inr (c', r', d', outs')"
    and out: "task_outputs task = outs'"
    by (auto simp: create_task_msg_def Let_def split: prod.splits sum.splits)
  from requirements_loop_result [OF loop] out
  have eq: "task_outputs task = ?outs @ ?dock" by simp
  have "last (?outs @ ?dock) = workdir_output x j \<longleftrightarrow> ?dock = []"
  proof (cases "?dock = []")
    case True
    then show ?thesis by simp
  next
    case False
    then have "last (?outs @ ?dock) = last ?dock" by simp
    also from False have "last ?dock \<in> set ?dock" by (rule last_in_set)
    then have "out_name (last ?dock) = ''dockerOutputDirectory''"
      by (auto simp: docker_output_def)
    then have "last ?dock \<noteq> workdir_output x j"
      by (auto simp: workdir_output_def)
    finally show ?thesis using False by simp
  qed
  with eq show ?thesis by simp
qed

theorem create_task_msg_outputs_witness:
  "\<exists>task. create_task_msg world0 ext0 job_docker = ([], Inr task) \<and>
     task_outputs task =
       [\<lparr>out_name = ''stdout'', out_url = VStr ''file:///out/out.txt'',
         out_path = VStr ''/var/spool/cwl/out.txt'', out_type = None\<rparr>,
        \<lparr>out_name = ''stderr'', out_url = VStr ''file:///out/err.txt'',
         out_path = VStr ''/var/spool/cwl/err.txt'', out_type = None\<rparr>,
        \<lparr>out_name = ''workdir'', out_url = VStr ''file:///out/'',
         out_path = VStr ''/var/spool/cwl'', out_type = Some ''DIRECTORY''\<rparr>,
        \<lparr>out_name = ''dockerOutputDirectory'', out_url = VStr ''file:///out/'',
         out_path = VStr ''/data'', out_type = Some ''DIRECTORY''\<rparr>] \<and>
     last (task_outputs task) \<noteq> workdir_output ext0 job_docker"
proof -
  have "fst (create_task_msg world0 ext0 job_docker) = []"
    and "\<not> isl (snd (create_task_msg world0 ext0 job_docker))"
    by code_simp+
  then obtain task where msg: "create_task_msg world0 ext0 job_docker = ([], Inr task)"
    by (cases "create_task_msg world0 ext0 job_docker";
        cases "snd (create_task_msg world0 ext0 job_docker)") auto
  have outs: "stdout_output ext0 job_docker @ stderr_output ext0 job_docker @
      [workdir_output ext0 job_docker] @
      map (docker_output ext0 job_docker)
        (filter docker_outdir (builder_requirements job_docker)) =
       [\<lparr>out_name = ''stdout'', out_url = VStr ''file:///out/out.txt'',
         out_path = VStr ''/var/spool/cwl/out.txt'', out_type = None\<rparr>,
        \<lparr>out_name = ''stderr'', out_url = VStr ''file:///out/err.txt'',
         out_path = VStr ''/var/spool/cwl/err.txt'', out_type = None\<rparr>,
        \<lparr>out_name = ''workdir'', out_url = VStr ''file:///out/'',
         out_path = VStr ''/var/spool/cwl'', out_type = Some ''DIRECTORY''\<rparr>,
        \<lparr>out_name = ''dockerOutputDirectory'', out_url = VStr ''file:///out/'',
         out_path = VStr ''/data'', out_type = Some ''DIRECTORY''\<rparr>]"
    by code_simp
  have ne: "filter docker_outdir (builder_requirements job_docker) \<noteq> []"
    by code_simp
  note t = create_task_msg_outputs [OF msg]
  from t outs have eq: "task_outputs task =
       [\<lparr>out_name = ''stdout'', out_url = VStr ''file:///out/out.txt'',
         out_path = VStr ''/var/spool/cwl/out.txt'', out_type = None\<rparr>,
        \<lparr>out_name = ''stderr'', out_url = VStr ''file:///out/err.txt'',
         out_path = VStr ''/var/spool/cwl/err.txt'', out_type = None\<rparr>,
        \<lparr>out_name = ''workdir'', out_url = VStr ''file:///out/'',
         out_path = VStr ''/var/spool/cwl'', out_type = Some ''DIRECTORY''\<rparr>,
        \<lparr>out_name = ''dockerOutputDirectory'', out_url = VStr ''file:///out/'',
         out_path = VStr ''/data'', out_type = Some ''DIRECTORY''\<rparr>]"
    by (simp only:)
  from t ne have "last (task_outputs task) \<noteq> workdir_output ext0 job_docker"
    by blast
  with eq msg show ?thesis by blast
qed

text \<open>
  The model on a job whose first \<open>ResourceRequirement\<close> has a RAM bound beyond the range
  of a double and whose second one has a text bound: the division of the first raises
  before the second is looked at.
\<close>

lemma create_task_msg_overflow:
  "create_task_msg world0 ext0 job_huge = ([], Inl OverflowError)"
  by code_simp



text \<open>
  C9: in a task that the translation produces, the RAM and disk claims are the numeric
  bounds selected from the \<open>ResourceRequirement\<close> (the last one, if there are several),
  divided by 953.674; numbers are exact rationals here, so this is the quotient before
  any floating-point rounding. An \<open>outdirMin\<close> of 953.674 gives a disk claim of 1.
\<close>

theorem create_task_msg_resources:
  assumes msg: "create_task_msg w x j = (ev, Inr task)"
    and lst: "last_resource (builder_requirements j) = Some i"
    and ram: "num_of (selected_ram i) = Some r"
    and disk: "num_of (selected_disk i) = Some d"
  shows "ram_gb (task_resources task) = VFloat (r / 953.674) \<and>
     disk_gb (task_resources task) = VFloat (d / 953.674)"
proof -
  let ?outs = "stdout_output x j @ stderr_output x j @ [workdir_output x j]"
  from msg obtain c' r' d' outs' where
    loop: "requirements_loop x j (builder_requirements j) (VNone, VNone, VNone, ?outs) =
       Inr (c', r', d', outs')"
    and res: "task_resources task = \<lparr>cpu_cores = c', ram_gb = r', disk_gb = d'\<rparr>"
    by (auto simp: create_task_msg_def Let_def split: prod.splits sum.splits)
  from requirements_loop_result [OF loop] lst
  have "to_gb (selected_ram i) = Inr r'" "to_gb (selected_disk i) = Inr d'" by simp_all
  with ram disk have "r' = VFloat (r / 953.674)" "d' = VFloat (d / 953.674)"
    by (auto simp: num_of_def to_gb_def split: pyval.splits if_splits)
  with res show ?thesis by simp
qed

theorem create_task_msg_resources_witness:
  "\<exists>task. create_task_msg world0 ext0 job_resources = ([], Inr task) \<and>
     ram_gb (task_resources task) = VFloat (2048 / 953.674) \<and>
     disk_gb (task_resources task) = VFloat 1"
proof -
  let ?i = "[(''class'', VStr ''ResourceRequirement''), (''coresMin'', VInt 2),
         (''ramMin'', VInt 2048), (''outdirMin'', VFloat 953.674)]"
  have "fst (create_task_msg world0 ext0 job_resources) = []"
    and "\<not> isl (snd (create_task_msg world0 ext0 job_resources))"
    by code_simp+
  then obtain task where msg: "create_task_msg world0 ext0 job_resources = ([], Inr task)"
    by (cases "create_task_msg world0 ext0 job_resources";
        cases "snd (create_task_msg world0 ext0 job_resources)") auto
  have lst: "last_resource (builder_requirements job_resources) = Some ?i" by code_simp
  have ram: "num_of (selected_ram ?i) = Some 2048"
    by (simp add: num_of_def selected_ram_def dict_get_def)
  have disk: "num_of (selected_disk ?i) = Some 953.674"
    by (simp add: num_of_def selected_disk_def dict_get_def)
  from create_task_msg_resources [OF msg lst ram disk] msg show ?thesis by simp
qed

text \<open>
  C10: an entry of the generated-files listing that has the key \<open>writable\<close>, whatever
  its value, stops \<open>parse_listing\<close>: the call raises, with the actions and, if there is
  one, the exception of the entries before it, and \<open>UnsupportedRequirement\<close> when these
  were processed; nothing is done for the entry or for those after it. \<open>run\<close> then raises
  without building a task or calling \<open>createTask\<close>.
\<close>

theorem parse_listing_writable:
  assumes wr: "has_key item ''writable''"
  shows "parse_listing w x j (pre @ item # post) inputs =
       (case parse_listing w x j pre inputs of
          (ev, Inl e) \<Rightarrow> (ev, Inl e)
        | (ev, Inr ins) \<Rightarrow> (ev, Inl UnsupportedRequirement))
     \<and> (listing j = pre @ item # post \<longrightarrow>
          (\<exists>ev e. create_task_msg w x j = (ev, Inl e) \<and> run w x j = Some (ev, Raised e) \<and>
             filter is_create ev = [] \<and>
             ((\<exists>ins ins'. joborder_loop x (joborder j) [] = Inr ins \<and>
                  snd (parse_listing w x j pre ins) = Inr ins') \<longrightarrow>
              e = UnsupportedRequirement)))"
proof (intro conjI impI)
  show pl: "parse_listing w x j (pre @ item # post) inputs =
       (case parse_listing w x j pre inputs of
          (ev, Inl e) \<Rightarrow> (ev, Inl e)
        | (ev, Inr ins) \<Rightarrow> (ev, Inl UnsupportedRequirement))" for inputs
    using wr by (simp add: parse_listing_append split: prod.splits sum.splits)
  assume l: "listing j = pre @ item # post"
  show "\<exists>ev e. create_task_msg w x j = (ev, Inl e) \<and> run w x j = Some (ev, Raised e) \<and>
      filter is_create ev = [] \<and>
      ((\<exists>ins ins'. joborder_loop x (joborder j) [] = Inr ins \<and>
           snd (parse_listing w x j pre ins) = Inr ins') \<longrightarrow>
       e = UnsupportedRequirement)"
  proof (cases "joborder_loop x (joborder j) []")
    case (Inl e)
    then have m: "create_task_msg w x j = ([], Inl e)"
      by (simp add: create_task_msg_def get_inputs_def)
    with Inl run_translation_fails [OF m] show ?thesis by simp
  next
    case (Inr ins)
    obtain ev r where p: "parse_listing w x j pre ins = (ev, r)"
      by (cases "parse_listing w x j pre ins")
    define e where "e = (case r of Inl e' \<Rightarrow> e' | Inr _ \<Rightarrow> UnsupportedRequirement)"
    have "parse_listing w x j (listing j) ins = (ev, Inl e)"
      using pl [of ins] p l by (simp add: e_def split: sum.splits)
    then have m: "create_task_msg w x j = (ev, Inl e)"
      using Inr by (simp add: create_task_msg_def get_inputs_def)
    have "filter is_create ev = []"
      using create_task_msg_writes [OF m] by (rule no_create_in_writes)
    moreover have "(\<exists>ins ins'. joborder_loop x (joborder j) [] = Inr ins \<and>
           snd (parse_listing w x j pre ins) = Inr ins') \<longrightarrow> e = UnsupportedRequirement"
      using Inr p by (auto simp: e_def)
    ultimately show ?thesis using m run_translation_fails [OF m] by blast
  qed
qed

theorem parse_listing_writable_witness:
  "has_key [(''class'', VStr ''File''), (''basename'', VStr ''b.txt''),
            (''location'', VStr ''/in/b.txt''), (''writable'', VBool False)] ''writable''
   \<and> run world0 ext0 job_writable = Some ([], Raised UnsupportedRequirement)
   \<and> create_task_msg world0 ext0 job_writable = ([], Inl UnsupportedRequirement)"
proof -
  let ?a = "[(''class'', VStr ''File''), (''basename'', VStr ''a.txt''),
            (''location'', VStr ''/in/a.txt'')]"
  let ?b = "[(''class'', VStr ''File''), (''basename'', VStr ''b.txt''),
            (''location'', VStr ''/in/b.txt''), (''writable'', VBool False)]"
  have h: "has_key ?b ''writable''" by code_simp
  have l: "listing job_writable = [?a] @ ?b # []" by code_simp
  have j: "joborder_loop ext0 (joborder job_writable) [] = Inr []" by code_simp
  have p: "\<exists>ins'. snd (parse_listing world0 ext0 job_writable [?a] []) = Inr ins'"
    by (simp add: stage_item_def has_key_def getitem_def listing_input_def ebind_def
        py_file_uri_def py_join_def py_upper_def)
  have w: "\<forall>e \<in> set (fst (parse_listing world0 ext0 job_writable [?a] [])). is_write e"
    by (simp add: stage_item_def has_key_def getitem_def listing_input_def ebind_def
        py_file_uri_def py_join_def py_upper_def)
  from parse_listing_writable [OF h, of world0 ext0 job_writable "[?a]" "[]" "[]"] l j p
  obtain ev where "create_task_msg world0 ext0 job_writable = (ev, Inl UnsupportedRequirement)"
    "run world0 ext0 job_writable = Some (ev, Raised UnsupportedRequirement)"
    by auto
  moreover have "fst (create_task_msg world0 ext0 job_writable) = []" by code_simp
  ultimately show ?thesis using h by simp
qed

section \<open>The claims about the run\<close>

text \<open>
  C8: when the translation and the submission succeed, the service answers \<open>RUNNING\<close> to
  the first three polls and \<open>COMPLETE\<close> to the fourth, and the collection of the outputs
  succeeds, \<open>run\<close> calls \<open>createTask\<close> once, polls four times, never asks for the logs,
  calls the success callback and no other, cleans up and returns.
\<close>

theorem run_polls_until_complete:
  assumes msg: "create_task_msg w x j = (ev, Inr task)"
    and sub: "create_task w task = Inr tid"
    and p0: "get_task_minimal w 0 = Inr ''RUNNING''"
    and p1: "get_task_minimal w 1 = Inr ''RUNNING''"
    and p2: "get_task_minimal w 2 = Inr ''RUNNING''"
    and p3: "get_task_minimal w 3 = Inr ''COMPLETE''"
    and col: "collect_outputs w = Inr outs"
    and cln: "clean_loop x outs [] = Inr cleaned"
    and cb: "output_callback w (if outs = [] then None else Some cleaned) Success = None"
  shows "\<exists>tr. run w x j = Some (tr, Returned) \<and>
     tr = ev @ [CreateTask task] @ concat (replicate 4 [Sleep 1, GetTask tid MINIMAL]) @
          [OutputCallback (if outs = [] then None else Some cleaned) Success] @
          cleanup w j (rm_tmpdir j) \<and>
     length (filter is_create tr) = 1 \<and> length (filter is_poll tr) = 4 \<and>
     filter is_log_fetch tr = [] \<and>
     filter is_callback tr = [OutputCallback (if outs = [] then None else Some cleaned) Success]"
proof -
  let ?t0 = "ev @ [CreateTask task]"
  let ?polls = "concat (replicate 4 [Sleep 1, GetTask tid MINIMAL])"
  let ?so = "if outs = [] then None else Some cleaned"
  have loop: "poll_loop w tid ''UNKNOWN'' 1 0 ?t0 = Some (?t0 @ ?polls, Inr ''COMPLETE'')"
    using poll_loop_step [OF not_terminal_UNKNOWN p0, of tid 1 ?t0]
      poll_loop_step [OF not_terminal_RUNNING p1 [unfolded One_nat_def], of tid 1]
      poll_loop_step [OF not_terminal_RUNNING, of w 2 "''RUNNING''" tid 1]
      poll_loop_step [OF not_terminal_RUNNING, of w 3 "''COMPLETE''" tid 1]
      p2 p3
    by (simp add: poll_loop_complete numeral_2_eq_2 numeral_3_eq_3 eval_nat_numeral)
  have coll: "collect w x j = ([OutputCallback ?so Success] @ cleanup w j (rm_tmpdir j), Returned)"
    using col cln cb by (simp add: collect_def collect_body_def Let_def)
  have r: "run w x j = Some (?t0 @ ?polls @ [OutputCallback ?so Success] @
      cleanup w j (rm_tmpdir j), Returned)"
    using msg sub loop coll by (simp add: run_def)
  note wr = create_task_msg_writes [OF msg]
  have cl: "filter is_create (cleanup w j b) = []" "filter is_poll (cleanup w j b) = []"
    "filter is_log_fetch (cleanup w j b) = []" "filter is_callback (cleanup w j b) = []" for b
    by (simp_all add: cleanup_def is_create_def is_poll_def is_log_fetch_def is_callback_def
        split: option.splits)
  show ?thesis
    using r filter_writes [OF wr] cl
    by (simp add: is_create_def is_poll_def is_log_fetch_def is_callback_def
        eval_nat_numeral)
qed

theorem run_polls_until_complete_witness:
  "run world0 ext0 job0 =
     Some ([CreateTask task0,
            Sleep 1, GetTask (VStr ''task-1'') MINIMAL,
            Sleep 1, GetTask (VStr ''task-1'') MINIMAL,
            Sleep 1, GetTask (VStr ''task-1'') MINIMAL,
            Sleep 1, GetTask (VStr ''task-1'') MINIMAL,
            OutputCallback (Some [(VStr ''out'', VStr ''x'')]) Success,
            Cleanup False, RmTree ''/stage''], Returned)"
proof -
  have sub: "create_task world0 task0 = Inr (VStr ''task-1'')"
    and p0: "get_task_minimal world0 0 = Inr ''RUNNING''"
    and p1: "get_task_minimal world0 1 = Inr ''RUNNING''"
    and p2: "get_task_minimal world0 2 = Inr ''RUNNING''"
    and p3: "get_task_minimal world0 3 = Inr ''COMPLETE''"
    and col: "collect_outputs world0 = Inr [(VStr ''out'', VStr ''x'')]"
    by (simp_all add: world0_def)
  have cln: "clean_loop ext0 [(VStr ''out'', VStr ''x'')] [] = Inr [(VStr ''out'', VStr ''x'')]"
    by simp
  have cb: "output_callback world0
      (if [(VStr ''out'', VStr ''x'')] = [] then None else Some [(VStr ''out'', VStr ''x'')])
      Success = None"
    by (simp add: world0_def)
  have cl: "cleanup world0 job0 (rm_tmpdir job0) = [Cleanup False, RmTree ''/stage'']"
    by code_simp
  from run_polls_until_complete [OF create_task_msg_job0 sub p0 p1 p2 p3 col cln cb]
  show ?thesis by (simp add: cl eval_nat_numeral)
qed

text \<open>
  C1 fails on the code, which never looks at the state the polling loop was left in:
  the callback is chosen by whether the collection of the outputs raises. The task
  below ends in \<open>EXECUTOR_ERROR\<close>, the logs are fetched, the tool declares no output, and
  \<open>run\<close> calls the success callback. On the service that fails every poll, the loop is
  left after eleven polls in the state \<open>UNKNOWN\<close>, and \<open>run\<close> calls the success callback too.
\<close>

theorem run_success_after_failed_task:
  "poll_loop world_failed (VStr ''task-1'') ''UNKNOWN'' 1 0 [] =
     Some ([Sleep 1, GetTask (VStr ''task-1'') MINIMAL, GetTask (VStr ''task-1'') FULL],
           Inr ''EXECUTOR_ERROR'')
   \<and> run world_failed ext0 job0 =
     Some ([CreateTask task0, Sleep 1, GetTask (VStr ''task-1'') MINIMAL,
            GetTask (VStr ''task-1'') FULL, OutputCallback None Success,
            Cleanup False, RmTree ''/stage''], Returned)
   \<and> map_option snd (poll_loop world_unreachable (VStr ''task-1'') ''UNKNOWN'' 1 0 []) =
     Some (Inr ''UNKNOWN'')
   \<and> callbacks (run world_unreachable ext0 job0) =
     [OutputCallback (Some [(VStr ''out'', VStr ''x'')]) Success]"
  by code_simp

text \<open>
  C3 fails on the code: the request for the logs is made once, but nothing catches its
  exception. Below the task ends in \<open>EXECUTOR_ERROR\<close> and the request for the logs fails:
  \<open>run\<close> raises that exception, having called no callback and not cleaned up.
\<close>

theorem run_raises_when_log_fetch_fails:
  "run world_no_logs ext0 job0 =
     Some ([CreateTask task0, Sleep 1, GetTask (VStr ''task-1'') MINIMAL,
            GetTask (VStr ''task-1'') FULL], Raised (ServiceError ''unreachable''))"
  by code_simp

text \<open>
  C2, as stated, fails: the translation and the submission are outside the \<open>try\<close>
  statement whose \<open>finally\<close> clause cleans up. A refused submission is raised again as a
  \<open>WorkflowException\<close>, and an \<open>UnsupportedRequirement\<close> of the translation leaves \<open>run\<close>
  before anything else; neither run cleans up.
\<close>

theorem run_cleanup_counterexample:
  "run world_refused ext0 job0 =
     Some ([CreateTask task0], Raised (WorkflowException (ServiceError ''refused'')))
   \<and> run world0 ext0 job_writable = Some ([], Raised UnsupportedRequirement)"
  by code_simp

text \<open>
  C2, amended: in every execution of \<open>run\<close> in which the translation and the submission
  succeed and the polling loop is left without an exception (the task completed, ended
  in a failure state, or the poll retries were used up), cleanup is executed exactly
  once and is the last thing \<open>run\<close> does, after the callback or callbacks, whether the
  collection succeeded or raised: the staging directory is removed if it exists, and the
  temporary directory if the caller asked for it.
\<close>

theorem run_cleanup_after_polling:
  assumes msg: "create_task_msg w x j = (ev, Inr task)"
    and sub: "create_task w task = Inr tid"
    and loop: "poll_loop w tid ''UNKNOWN'' 1 0 (ev @ [CreateTask task]) = Some (tr, Inr st)"
  shows "\<exists>cb out. run w x j = Some (tr @ cb @ cleanup w j (rm_tmpdir j), out) \<and>
     (\<forall>e \<in> set cb. is_callback e) \<and>
     filter is_cleanup (tr @ cb @ cleanup w j (rm_tmpdir j)) = [Cleanup (rm_tmpdir j)]"
proof -
  from collect_ends_with_cleanup [of w x j] obtain cb out where
    c: "collect w x j = (cb @ cleanup w j (rm_tmpdir j), out)"
    and cbs: "\<forall>e \<in> set cb. is_callback e" by blast
  have r: "run w x j = Some (tr @ cb @ cleanup w j (rm_tmpdir j), out)"
    using msg sub loop c by (simp add: run_def)
  from poll_loop_events [OF loop] obtain more where
    tr: "tr = (ev @ [CreateTask task]) @ more" and sv: "\<forall>e \<in> set more. is_service e"
    by auto
  have 1: "filter is_cleanup ev = []"
    using create_task_msg_writes [OF msg]
    by (rule filter_none) (auto simp: is_write_def is_cleanup_def split: event.splits)
  have 2: "filter is_cleanup more = []"
    using sv by (rule filter_none) (auto simp: is_service_def is_cleanup_def split: event.splits)
  have 3: "filter is_cleanup cb = []"
    using cbs by (rule filter_none) (auto simp: is_callback_def is_cleanup_def split: event.splits)
  have "filter is_cleanup (tr @ cb @ cleanup w j (rm_tmpdir j)) = [Cleanup (rm_tmpdir j)]"
    using 1 2 3 by (simp add: tr cleanup_once is_cleanup_def)
  with r cbs show ?thesis by blast
qed

lemma poll_failed: "poll_loop world_failed (VStr ''task-1'') ''UNKNOWN'' 1 0 ([] @ [CreateTask task0]) =
     Some ([CreateTask task0, Sleep 1, GetTask (VStr ''task-1'') MINIMAL,
            GetTask (VStr ''task-1'') FULL], Inr ''EXECUTOR_ERROR'')"
  by code_simp

theorem run_cleanup_after_polling_witness:
  "\<exists>cb out. run world_failed ext0 job0 =
       Some ([CreateTask task0, Sleep 1, GetTask (VStr ''task-1'') MINIMAL,
              GetTask (VStr ''task-1'') FULL] @ cb @ [Cleanup False, RmTree ''/stage''], out)
     \<and> (\<forall>e \<in> set cb. is_callback e)"
proof -
  have msg: "create_task_msg world_failed ext0 job0 = ([], Inr task0)"
    by code_simp
  have sub: "create_task world_failed task0 = Inr (VStr ''task-1'')"
    by code_simp
  have cl: "cleanup world_failed job0 (rm_tmpdir job0) = [Cleanup False, RmTree ''/stage'']"
    by code_simp
  from run_cleanup_after_polling [OF msg sub poll_failed] show ?thesis
    by (auto simp: cl)
qed

end
